theory Spec2Isabelle
  imports Main "HOL-Library.AList"
begin

section \<open>Python values and strings\<close>

text \<open>
  Strings are byte lists holding the UTF-8 encoding of the Python string; concatenation,
  joining and equality of Python strings agree with the same operations on the encodings.
  The fixed texts of \<open>agent_client.py\<close> are written out as their bytes.
\<close>

definition msg_no_connection :: string where
  \<comment> \<open>the prefix of the message raised by \<open>call_tool\<close> for an unknown server\<close>
  "msg_no_connection =
   [CHR 0xE6, CHR 0x9C, CHR 0xAA, CHR 0xE6, CHR 0x89, CHR 0xBE, CHR 0xE5, CHR 0x88,
    CHR 0xB0, CHR 0xE6, CHR 0x9C, CHR 0x8D, CHR 0xE5, CHR 0x8A, CHR 0xA1, CHR 0xE5,
    CHR 0x99, CHR 0xA8, CHR 0xE8, CHR 0xBF, CHR 0x9E, CHR 0xE6, CHR 0x8E, CHR 0xA5,
    CHR 0x3A, CHR 0x20]"

definition msg_call_failed :: string where
  \<comment> \<open>the prefix of the message raised by \<open>call_tool\<close> on a status other than 200\<close>
  "msg_call_failed =
   [CHR 0xE8, CHR 0xB0, CHR 0x83, CHR 0xE7, CHR 0x94, CHR 0xA8, CHR 0xE5, CHR 0xB7,
    CHR 0xA5, CHR 0xE5, CHR 0x85, CHR 0xB7, CHR 0xE5, CHR 0xA4, CHR 0xB1, CHR 0xE8,
    CHR 0xB4, CHR 0xA5, CHR 0x3A, CHR 0x20]"

definition msg_connect_timeout :: string where
  \<comment> \<open>the error text recorded by the timeout handler of \<open>connect_to_server\<close>\<close>
  "msg_connect_timeout =
   [CHR 0xE8, CHR 0xBF, CHR 0x9E, CHR 0xE6, CHR 0x8E, CHR 0xA5, CHR 0xE8, CHR 0xB6,
    CHR 0x85, CHR 0xE6, CHR 0x97, CHR 0xB6]"

definition marker_open :: string where
  \<comment> \<open>a line feed, an opening bracket and the words before the tool name\<close>
  "marker_open =
   [CHR 0x0A, CHR 0x5B, CHR 0xE8, CHR 0xB0, CHR 0x83, CHR 0xE7, CHR 0x94, CHR 0xA8,
    CHR 0xE5, CHR 0xB7, CHR 0xA5, CHR 0xE5, CHR 0x85, CHR 0xB7, CHR 0x20]"

definition marker_result :: string where
  \<comment> \<open>the words between the tool name and its result\<close>
  "marker_result =
   [CHR 0xEF, CHR 0xBC, CHR 0x8C, CHR 0xE7, CHR 0xBB, CHR 0x93, CHR 0xE6, CHR 0x9E,
    CHR 0x9C, CHR 0x3A, CHR 0x20]"

definition marker_failed :: string where
  \<comment> \<open>the words between the tool name and the text of its error\<close>
  "marker_failed =
   [CHR 0x20, CHR 0xE5, CHR 0xA4, CHR 0xB1, CHR 0xE8, CHR 0xB4, CHR 0xA5, CHR 0x3A,
    CHR 0x20]"

definition msg_no_result :: string where
  \<comment> \<open>the text returned by \<open>process_response\<close> when nothing was collected\<close>
  "msg_no_result =
   [CHR 0xE5, CHR 0xA4, CHR 0x84, CHR 0xE7, CHR 0x90, CHR 0x86, CHR 0xE5, CHR 0xAE,
    CHR 0x8C, CHR 0xE6, CHR 0x88, CHR 0x90, CHR 0xEF, CHR 0xBC, CHR 0x8C, CHR 0xE4,
    CHR 0xBD, CHR 0x86, CHR 0xE6, CHR 0xB2, CHR 0xA1, CHR 0xE6, CHR 0x9C, CHR 0x89,
    CHR 0xE8, CHR 0xBF, CHR 0x94, CHR 0xE5, CHR 0x9B, CHR 0x9E, CHR 0xE7, CHR 0xBB,
    CHR 0x93, CHR 0xE6, CHR 0x9E, CHR 0x9C]"

definition msg_no_session :: string where
  \<comment> \<open>the text returned by \<open>process_response\<close> when it is given no session\<close>
  "msg_no_session =
   [CHR 0xE9, CHR 0x94, CHR 0x99, CHR 0xE8, CHR 0xAF, CHR 0xAF, CHR 0x3A, CHR 0x20,
    CHR 0xE6, CHR 0x97, CHR 0xA0, CHR 0xE6, CHR 0xB3, CHR 0x95, CHR 0xE8, CHR 0x8E,
    CHR 0xB7, CHR 0xE5, CHR 0x8F, CHR 0x96, CHR 0xE6, CHR 0x9C, CHR 0x8D, CHR 0xE5,
    CHR 0x8A, CHR 0xA1, CHR 0xE5, CHR 0x99, CHR 0xA8, CHR 0xE4, CHR 0xBC, CHR 0x9A,
    CHR 0xE8, CHR 0xAF, CHR 0x9D]"

text \<open>
  A Python float is a finite binary fraction \<open>m * 2^e\<close>, an infinity (the flag is its sign)
  or a NaN. Comparing a float with an integer is exact in Python, so the comparison is
  written on the integers. \<open>str\<close> prints the infinities and NaN as "inf", "-inf" and
  "nan". How it prints a finite float (the shortest digits that read back as the same
  float, in fixed or scientific notation) is not modelled: every function that prints
  one takes the printer of finite floats as its first argument.
\<close>

datatype pyfloat = FFin int int | FInf bool | FNaN

fun float_abs_gt :: "pyfloat \<Rightarrow> int \<Rightarrow> bool" where
  \<comment> \<open>\<open>abs(f) > n\<close>\<close>
  "float_abs_gt (FFin m e) n =
     (if 0 \<le> e then n < \<bar>m\<bar> * 2 ^ nat e else n * 2 ^ nat (- e) < \<bar>m\<bar>)"
| "float_abs_gt (FInf neg) n = True"
| "float_abs_gt FNaN n = False"

fun str_float :: "(int \<Rightarrow> int \<Rightarrow> string) \<Rightarrow> pyfloat \<Rightarrow> string" where
  \<comment> \<open>\<open>str(f)\<close>\<close>
  "str_float pr (FFin m e) = pr m e"
| "str_float pr (FInf neg) = (if neg then ''-inf'' else ''inf'')"
| "str_float pr FNaN = ''nan''"

text \<open>
  The value trees that tool arguments and tool results are made of: what \<open>json.loads\<close>
  returns. A dict is an association list in insertion order.
\<close>

datatype json = JNull | JBool bool | JInt int | JFloat pyfloat | JStr string
  | JList "json list" | JDict "(string \<times> json) list"

text \<open>\<open>str\<close> of an integer: its decimal digits, with a minus sign when negative.\<close>

fun digits10 :: "nat \<Rightarrow> string" where
  "digits10 n = (if n < 10 then [''0123456789'' ! n]
                 else digits10 (n div 10) @ [''0123456789'' ! (n mod 10)])"

definition str_int :: "int \<Rightarrow> string" where
  "str_int n = (if n < 0 then CHR ''-'' # digits10 (nat (- n)) else digits10 (nat n))"

definition str_bool :: "bool \<Rightarrow> string" where
  "str_bool b = (if b then ''True'' else ''False'')"

text \<open>
  Reading a decimal string back as the integer it denotes. This is the yardstick for
  "exact decimal representation"; the program has no such function.
\<close>

definition digit_val :: "char \<Rightarrow> nat" where
  "digit_val c = of_char c - 48"

definition nat_of_digits :: "string \<Rightarrow> nat" where
  "nat_of_digits s = foldl (\<lambda>a c. 10 * a + digit_val c) 0 s"

definition int_of_decimal :: "string \<Rightarrow> int" where
  "int_of_decimal s = (case s of [] \<Rightarrow> 0
     | c # ds \<Rightarrow> if c = CHR ''-'' then - int (nat_of_digits ds) else int (nat_of_digits s))"

definition is_decimal_string :: "string \<Rightarrow> bool" where
  \<comment> \<open>decimal digits, at least one, after an optional minus sign\<close>
  "is_decimal_string s = (case s of [] \<Rightarrow> False
     | c # ds \<Rightarrow> if c = CHR ''-'' then ds \<noteq> [] \<and> list_all (\<lambda>d. d \<in> set ''0123456789'') ds
                else list_all (\<lambda>d. d \<in> set ''0123456789'') s)"

section \<open>The big-integer conversion\<close>

text \<open>
  \<open>convert_bigint\<close>, local to \<open>OpenAIService._format_tool_result\<close>. A \<open>bool\<close> is an
  \<open>int\<close> for \<open>isinstance\<close>, with value 0 or 1, so it reaches the numeric test too.
\<close>

fun convert_bigint :: "(int \<Rightarrow> int \<Rightarrow> string) \<Rightarrow> json \<Rightarrow> json" where
  "convert_bigint fs (JDict kvs) = JDict (map (\<lambda>(k, v). (k, convert_bigint fs v)) kvs)"
| "convert_bigint fs (JList xs) = JList (map (convert_bigint fs) xs)"
| "convert_bigint fs (JBool b) =
     (if \<bar>if b then 1 else 0\<bar> > (9007199254740991 :: int) then JStr (str_bool b) else JBool b)"
| "convert_bigint fs (JInt n) =
     (if \<bar>n\<bar> > 9007199254740991 then JStr (str_int n) else JInt n)"
| "convert_bigint fs (JFloat f) =
     (if float_abs_gt f 9007199254740991 then JStr (str_float fs f) else JFloat f)"
| "convert_bigint fs v = v"

text \<open>\<open>convert_args_bigint\<close>, local to \<open>BaseAIService._call_tool\<close>: the same body again.\<close>

fun convert_args_bigint :: "(int \<Rightarrow> int \<Rightarrow> string) \<Rightarrow> json \<Rightarrow> json" where
  "convert_args_bigint fs (JDict kvs) =
     JDict (map (\<lambda>(k, v). (k, convert_args_bigint fs v)) kvs)"
| "convert_args_bigint fs (JList xs) = JList (map (convert_args_bigint fs) xs)"
| "convert_args_bigint fs (JBool b) =
     (if \<bar>if b then 1 else 0\<bar> > (9007199254740991 :: int) then JStr (str_bool b) else JBool b)"
| "convert_args_bigint fs (JInt n) =
     (if \<bar>n\<bar> > 9007199254740991 then JStr (str_int n) else JInt n)"
| "convert_args_bigint fs (JFloat f) =
     (if float_abs_gt f 9007199254740991 then JStr (str_float fs f) else JFloat f)"
| "convert_args_bigint fs v = v"

text \<open>
  "No number beyond the bound is left": no integer or float anywhere in the tree has an
  absolute value above \<open>2^53 - 1\<close>.
\<close>

fun big_free :: "json \<Rightarrow> bool" where
  "big_free (JDict kvs) = list_all (\<lambda>(k, v). big_free v) kvs"
| "big_free (JList xs) = list_all big_free xs"
| "big_free (JInt n) = (\<bar>n\<bar> \<le> 9007199254740991)"
| "big_free (JFloat f) = (\<not> float_abs_gt f 9007199254740991)"
| "big_free v = True"

definition blank_printer :: "int \<Rightarrow> int \<Rightarrow> string" where
  \<comment> \<open>a printer for the examples, none of which prints a finite float\<close>
  "blank_printer m e = []"


text \<open>
  Positions in a value tree: a path of dict keys and list indices. \<open>at_path v p\<close> is the
  value found at \<open>p\<close>, if the tree has that position.
\<close>

datatype step = Key string | Idx nat

fun at_path :: "json \<Rightarrow> step list \<Rightarrow> json option" where
  "at_path v [] = Some v"
| "at_path (JDict kvs) (Key k # p) =
     (case map_of kvs k of None \<Rightarrow> None | Some v \<Rightarrow> at_path v p)"
| "at_path (JList xs) (Idx i # p) = (if i < length xs then at_path (xs ! i) p else None)"
| "at_path v (s # p) = None"

section \<open>Errors\<close>

text \<open>
  What an awaited operation can raise. \<open>error\<close> holds the classes below \<open>Exception\<close>
  (\<open>asyncio.TimeoutError\<close> is one of them), each with the text \<open>str(e)\<close> gives;
  \<open>CancelledError\<close> is not below \<open>Exception\<close>. Only \<open>cleanup\<close> names cancellation
  in its handlers, so only its operations are given the wider type \<open>exn\<close>; interrupts
  of the whole process are outside the model.
\<close>

datatype error = TimeoutError string | TypeError string | AttributeError string
  | Exception string

fun str_error :: "error \<Rightarrow> string" where
  "str_error (TimeoutError m) = m"
| "str_error (TypeError m) = m"
| "str_error (AttributeError m) = m"
| "str_error (Exception m) = m"

datatype exn = Err error | CancelledError

datatype exn_class = TimeoutError_class | CancelledError_class | Exception_class

fun isinstance :: "exn \<Rightarrow> exn_class \<Rightarrow> bool" where
  "isinstance (Err e) Exception_class = True"
| "isinstance (Err (TimeoutError m)) TimeoutError_class = True"
| "isinstance CancelledError CancelledError_class = True"
| "isinstance x c = False"

definition caught :: "exn_class list \<Rightarrow> exn \<Rightarrow> bool" where
  \<comment> \<open>does \<open>except (c1, c2, ...)\<close> take the exception\<close>
  "caught cs x = list_ex (isinstance x) cs"

section \<open>The hub: \<open>McpHub\<close>\<close>

text \<open>
  A stored connection is the dict built by \<open>connect_to_server\<close>. Its key
  \<open>transport\<close> is "stdio" or "sse", and the key \<open>url\<close> exists exactly for "sse", so the
  two are one field. \<open>session\<close> is the identity of the session object. A missing
  \<open>error\<close> key is \<open>None\<close>.
\<close>

record server_config =
  transportType :: "string option"
  command :: string
  cmd_args :: "string list"
  env_vars :: "(string \<times> string) list"
  url :: string

datatype transport = Stdio | Sse string

record connection =
  transport :: transport
  session :: nat
  client :: string
  config :: server_config
  tools :: "json option"
  status :: string
  error :: "string option"

text \<open>
  Every operation the hub awaits on a collaborator is an event; the hub's \<open>trace\<close>
  lists them in the order they were started. The trace is the only field the Python
  object does not have.
\<close>

datatype event =
    StdioConnect string
  | HttpGet string
  | HttpPost string
  | ListTools nat
  | CallTool nat string json
  | Shutdown nat
  | HttpSessionClose nat
  | ExitStackClose
  | Sleep nat

record hub =
  connections :: "(string \<times> connection) list"
  default_server_name :: string
  client_version :: string
  connection_timeout :: int
  connection_retries :: int
  trace :: "event list"

definition McpHub_init :: hub where
  "McpHub_init = \<lparr>connections = [], default_server_name = ''moveflow-aptos'',
     client_version = ''1.0.0'', connection_timeout = 30, connection_retries = 2,
     trace = []\<rparr>"

text \<open>
  The collaborators answer through \<open>env\<close>: what each awaited operation returns or
  raises. Connection attempts are numbered from 1, as \<open>attempt\<close> is in the source.
\<close>

record http_response =
  status_code :: nat
  json_body :: "error + json"
  text_body :: string

record env =
  stdio_connect :: "nat \<Rightarrow> error + nat"
  http_get :: "nat \<Rightarrow> string \<Rightarrow> error + http_response"
  http_session :: "nat \<Rightarrow> nat"
  load_timeout :: "nat \<Rightarrow> bool"
  list_tools :: "nat \<Rightarrow> error + json"
  get_tools_list :: "string \<Rightarrow> error + http_response"
  session_call_tool :: "nat \<Rightarrow> string \<Rightarrow> json \<Rightarrow> error + json"
  post_tools_call :: "string \<Rightarrow> string \<Rightarrow> json \<Rightarrow> error + http_response"
  has_shutdown :: "nat \<Rightarrow> bool"
  shutdown :: "nat \<Rightarrow> exn option"
  aclose :: "exn option"

definition log :: "event \<Rightarrow> hub \<Rightarrow> hub" where
  "log ev h = h\<lparr>trace := trace h @ [ev]\<rparr>"

subsection \<open>\<open>load_tools\<close>\<close>

definition set_tools :: "string \<Rightarrow> json \<Rightarrow> hub \<Rightarrow> hub" where
  \<comment> \<open>\<open>connection["tools"] = tools\<close>, on the dict held by the registry\<close>
  "set_tools server_name ts h = (case map_of (connections h) server_name of
       None \<Rightarrow> h
     | Some c \<Rightarrow> h\<lparr>connections := AList.update server_name (c\<lparr>tools := Some ts\<rparr>) (connections h)\<rparr>)"

definition load_tools :: "env \<Rightarrow> string \<Rightarrow> hub \<Rightarrow> json \<times> hub" where
  "load_tools E server_name h =
    (case map_of (connections h) server_name of
       None \<Rightarrow> (JList [], h)
     | Some c \<Rightarrow>
        (case transport c of
           Stdio \<Rightarrow>
             (case list_tools E (session c) of
                Inr ts \<Rightarrow> (ts, set_tools server_name ts (log (ListTools (session c)) h))
              | Inl e \<Rightarrow> (JList [], log (ListTools (session c)) h))
         | Sse u \<Rightarrow>
             (case get_tools_list E u of
                Inr response \<Rightarrow>
                  if status_code response = 200 then
                    (case json_body response of
                       Inr ts \<Rightarrow>
                         (ts, set_tools server_name ts (log (HttpGet (u @ ''/tools/list'')) h))
                     | Inl e \<Rightarrow> (JList [], log (HttpGet (u @ ''/tools/list'')) h))
                  else (JList [], log (HttpGet (u @ ''/tools/list'')) h)
              | Inl e \<Rightarrow> (JList [], log (HttpGet (u @ ''/tools/list'')) h))))"

subsection \<open>\<open>connect_to_server\<close>\<close>

definition py_or :: "int option \<Rightarrow> int \<Rightarrow> int" where
  \<comment> \<open>\<open>x or d\<close> for an optional integer: \<open>None\<close> and 0 are both false\<close>
  "py_or x d = (case x of None \<Rightarrow> d | Some v \<Rightarrow> if v = 0 then d else v)"

definition remove_existing :: "string \<Rightarrow> hub \<Rightarrow> hub" where
  \<comment> \<open>\<open>if name in self.connections: del self.connections[name]\<close>\<close>
  "remove_existing name h =
     (if map_of (connections h) name \<noteq> None
      then h\<lparr>connections := AList.delete name (connections h)\<rparr> else h)"

definition store :: "string \<Rightarrow> transport \<Rightarrow> nat \<Rightarrow> server_config \<Rightarrow> hub \<Rightarrow> hub" where
  \<comment> \<open>\<open>self.connections[name] = {...}\<close>\<close>
  "store name tr s cfg h = h\<lparr>connections := AList.update name
       \<lparr>transport = tr, session = s, client = client_version h, config = cfg,
        tools = None, status = ''connected'', error = None\<rparr> (connections h)\<rparr>"

definition fetch_event :: "connection \<Rightarrow> event" where
  \<comment> \<open>the request \<open>load_tools\<close> starts for a connection\<close>
  "fetch_event c = (case transport c of
       Stdio \<Rightarrow> ListTools (session c) | Sse u \<Rightarrow> HttpGet (u @ ''/tools/list''))"

definition load_tools_bounded :: "env \<Rightarrow> nat \<Rightarrow> string \<Rightarrow> hub \<Rightarrow> hub" where
  \<comment> \<open>\<open>load_tools\<close> under \<open>wait_for\<close>, the timeout caught and passed over: a call cut
      short has started its request and stored nothing\<close>
  "load_tools_bounded E attempt name h =
     (if load_timeout E attempt then
        (case map_of (connections h) name of None \<Rightarrow> h | Some c \<Rightarrow> log (fetch_event c) h)
      else snd (load_tools E name h))"

definition mark_disconnected :: "string \<Rightarrow> string \<Rightarrow> hub \<Rightarrow> hub" where
  \<comment> \<open>the handlers' update, under its guard \<open>if name in self.connections\<close>\<close>
  "mark_disconnected name msg h = (case map_of (connections h) name of
       None \<Rightarrow> h
     | Some c \<Rightarrow> h\<lparr>connections :=
         AList.update name (c\<lparr>status := ''disconnected'', error := Some msg\<rparr>) (connections h)\<rparr>)"

datatype attempt_result = Return bool hub | Retry hub

definition handle_error :: "string \<Rightarrow> int \<Rightarrow> int \<Rightarrow> error \<Rightarrow> hub \<Rightarrow> attempt_result" where
  \<comment> \<open>\<open>except asyncio.TimeoutError\<close>, then \<open>except Exception as e\<close>\<close>
  "handle_error name retries attempt e h =
     (case e of
        TimeoutError m \<Rightarrow>
          if attempt > retries then Return False (mark_disconnected name msg_connect_timeout h)
          else Retry (log (Sleep 1) h)
      | _ \<Rightarrow>
          if attempt > retries then Return False (mark_disconnected name (str_error e) h)
          else Retry (log (Sleep 1) (mark_disconnected name (str_error e) h)))"

definition connect_attempt ::
  "env \<Rightarrow> string \<Rightarrow> server_config \<Rightarrow> int \<Rightarrow> int \<Rightarrow> hub \<Rightarrow> attempt_result" where
  \<comment> \<open>one pass through the body of the \<open>while\<close> loop, \<open>attempt\<close> already incremented.
      On the HTTP path everything up to the \<open>return\<close>, the \<open>continue\<close> or the exception
      runs inside \<open>async with aiohttp.ClientSession(...) as session\<close>, and leaving that
      block closes the session, the one that was just stored when the attempt succeeds\<close>
  "connect_attempt E name cfg retries attempt h =
    (if transportType cfg = Some ''stdio'' then
       (case stdio_connect E (nat attempt) of
          Inr s \<Rightarrow> Return True (load_tools_bounded E (nat attempt) name
                     (store name Stdio s cfg (log (StdioConnect name) (remove_existing name h))))
        | Inl e \<Rightarrow>
            handle_error name retries attempt e (log (StdioConnect name) (remove_existing name h)))
     else if transportType cfg = Some ''sse'' then
       (case http_get E (nat attempt) (url cfg) of
          Inr response \<Rightarrow>
            if status_code response = 200 then
              Return True (log (HttpSessionClose (http_session E (nat attempt)))
                (load_tools_bounded E (nat attempt) name
                  (store name (Sse (url cfg)) (http_session E (nat attempt)) cfg
                     (log (HttpGet (url cfg)) (remove_existing name h)))))
            else if attempt > retries then
              Return False (log (HttpSessionClose (http_session E (nat attempt)))
                (log (HttpGet (url cfg)) (remove_existing name h)))
            else Retry (log (HttpSessionClose (http_session E (nat attempt)))
                (log (Sleep 1) (log (HttpGet (url cfg)) (remove_existing name h))))
        | Inl e \<Rightarrow>
            handle_error name retries attempt e
              (log (HttpSessionClose (http_session E (nat attempt)))
                (log (HttpGet (url cfg)) (remove_existing name h))))
     else Return False (remove_existing name h))"

text \<open>
  The loop \<open>while attempt <= retries\<close>. Leaving the loop by its condition falls off the
  end of the function, which returns \<open>None\<close>; that is the result \<open>None\<close> here.
\<close>

function connect_loop ::
  "env \<Rightarrow> string \<Rightarrow> server_config \<Rightarrow> int \<Rightarrow> int \<Rightarrow> hub \<Rightarrow> bool option \<times> hub" where
  "connect_loop E name cfg retries attempt h =
     (if attempt \<le> retries then
        (case connect_attempt E name cfg retries (attempt + 1) h of
           Return b h' \<Rightarrow> (Some b, h')
         | Retry h' \<Rightarrow> connect_loop E name cfg retries (attempt + 1) h')
      else (None, h))"
  by pat_completeness auto
termination
  by (relation "measure (\<lambda>(E, name, cfg, retries, attempt, h). nat (retries + 1 - attempt))") auto

definition connect_to_server ::
  "env \<Rightarrow> string \<Rightarrow> server_config \<Rightarrow> int option \<Rightarrow> int option \<Rightarrow> hub \<Rightarrow> bool option \<times> hub" where
  \<comment> \<open>the time limit \<open>timeout or self.connection_timeout\<close> is carried by the answers of
      \<open>env\<close>: an operation that exceeds it answers \<open>TimeoutError\<close>\<close>
  "connect_to_server E name cfg timeout retries h =
     connect_loop E name cfg (py_or retries (connection_retries h)) 0 h"

subsection \<open>\<open>call_tool\<close>\<close>

definition call_tool ::
  "env \<Rightarrow> string \<Rightarrow> string \<Rightarrow> json \<Rightarrow> hub \<Rightarrow> (error + json) \<times> hub" where
  \<comment> \<open>the handler \<open>except Exception as e: print(...); raise\<close> raises \<open>e\<close> again\<close>
  "call_tool E server_name tool_name tool_args h =
    (case map_of (connections h) server_name of
       None \<Rightarrow> (Inl (Exception (msg_no_connection @ server_name)), h)
     | Some c \<Rightarrow>
        (case transport c of
           Stdio \<Rightarrow>
             (session_call_tool E (session c) tool_name tool_args,
              log (CallTool (session c) tool_name tool_args) h)
         | Sse u \<Rightarrow>
             (case post_tools_call E u tool_name tool_args of
                Inr response \<Rightarrow>
                  if status_code response = 200
                  then (json_body response, log (HttpPost (u @ ''/tools/call'')) h)
                  else (Inl (Exception (msg_call_failed @ str_int (int (status_code response))
                               @ '', '' @ text_body response)),
                        log (HttpPost (u @ ''/tools/call'')) h)
              | Inl e \<Rightarrow> (Inl e, log (HttpPost (u @ ''/tools/call'')) h))))"

subsection \<open>\<open>cleanup\<close>\<close>

definition shutdown_session :: "env \<Rightarrow> connection \<Rightarrow> hub \<Rightarrow> exn option \<times> hub" where
  \<comment> \<open>the two nested \<open>try\<close> blocks around \<open>session.shutdown()\<close>; the result is the
      exception that leaves them, if any\<close>
  "shutdown_session E c h =
     (if has_shutdown E (session c) then
        (case shutdown E (session c) of
           None \<Rightarrow> (None, log (Shutdown (session c)) h)
         | Some x \<Rightarrow>
             if caught [TimeoutError_class, CancelledError_class, Exception_class] x
             then (None, log (Shutdown (session c)) h)
             else if caught [Exception_class] x then (None, log (Shutdown (session c)) h)
             else (Some x, log (Shutdown (session c)) h))
      else (None, h))"

fun cleanup_loop :: "env \<Rightarrow> (string \<times> connection) list \<Rightarrow> hub \<Rightarrow> exn option \<times> hub" where
  \<comment> \<open>\<open>for server_name, connection in list(self.connections.items())\<close>\<close>
  "cleanup_loop E [] h = (None, h)"
| "cleanup_loop E ((server_name, c) # rest) h =
     (if transport c = Stdio then
        (case shutdown_session E c h of
           (Some x, h') \<Rightarrow> (Some x, h')
         | (None, h') \<Rightarrow> cleanup_loop E rest h')
      else cleanup_loop E rest h)"

definition close_exit_stack :: "env \<Rightarrow> hub \<Rightarrow> exn option \<times> hub" where
  \<comment> \<open>\<open>exit_stack.aclose()\<close> under its own \<open>try\<close>\<close>
  "close_exit_stack E h =
     (case aclose E of
        None \<Rightarrow> (None, log ExitStackClose h)
      | Some x \<Rightarrow>
          if caught [TimeoutError_class, CancelledError_class, Exception_class] x
          then (None, log ExitStackClose h) else (Some x, log ExitStackClose h))"

definition cleanup_body :: "env \<Rightarrow> hub \<Rightarrow> exn option \<times> hub" where
  \<comment> \<open>the body of the outer \<open>try\<close>\<close>
  "cleanup_body E h =
     (case cleanup_loop E (connections h) h of
        (Some x, h') \<Rightarrow> (Some x, h')
      | (None, h') \<Rightarrow> close_exit_stack E (h'\<lparr>connections := []\<rparr>))"

definition cleanup :: "env \<Rightarrow> hub \<Rightarrow> exn option \<times> hub" where
  \<comment> \<open>the outer \<open>except Exception\<close> and the \<open>finally\<close> clause; the first component is
      the exception \<open>cleanup\<close> raises, if any\<close>
  "cleanup E h =
     (case cleanup_body E h of
        (None, h') \<Rightarrow> (None, h'\<lparr>connections := []\<rparr>)
      | (Some x, h') \<Rightarrow>
          if caught [Exception_class] x then (None, h'\<lparr>connections := []\<rparr>)
          else (Some x, h'\<lparr>connections := []\<rparr>))"

subsection \<open>Collaborators and hubs used as examples\<close>

definition refusing_env :: env where
  \<comment> \<open>every transport operation raises\<close>
  "refusing_env = \<lparr>
     stdio_connect = (\<lambda>n. Inl (Exception ''spawn failed'')),
     http_get = (\<lambda>n u. Inl (Exception ''unreachable'')),
     http_session = (\<lambda>n. 0),
     load_timeout = (\<lambda>n. False),
     list_tools = (\<lambda>s. Inl (Exception ''closed'')),
     get_tools_list = (\<lambda>u. Inl (Exception ''unreachable'')),
     session_call_tool = (\<lambda>s t a. Inl (Exception ''tool failed'')),
     post_tools_call = (\<lambda>u t a. Inl (Exception ''unreachable'')),
     has_shutdown = (\<lambda>s. False),
     shutdown = (\<lambda>s. None),
     aclose = None\<rparr>"

definition serving_env :: env where
  \<comment> \<open>every operation succeeds; attempt \<open>n\<close> yields the session \<open>100 + n\<close>, and every
      session offers the one tool "transfer"\<close>
  "serving_env = \<lparr>
     stdio_connect = (\<lambda>n. Inr (100 + n)),
     http_get = (\<lambda>n u. Inr \<lparr>status_code = 200, json_body = Inr JNull, text_body = ''''\<rparr>),
     http_session = (\<lambda>n. 200 + n),
     load_timeout = (\<lambda>n. False),
     list_tools = (\<lambda>s. Inr (JList [JStr ''transfer''])),
     get_tools_list = (\<lambda>u. Inr \<lparr>status_code = 200,
        json_body = Inr (JList [JStr ''transfer'']), text_body = ''''\<rparr>),
     session_call_tool = (\<lambda>s t a. Inr (JStr ''done'')),
     post_tools_call = (\<lambda>u t a. Inr \<lparr>status_code = 200, json_body = Inr (JStr ''done''),
        text_body = ''''\<rparr>),
     has_shutdown = (\<lambda>s. True),
     shutdown = (\<lambda>s. None),
     aclose = None\<rparr>"

definition stdio_cfg :: server_config where
  "stdio_cfg = \<lparr>transportType = Some ''stdio'', command = ''npx'', cmd_args = [],
     env_vars = [], url = ''''\<rparr>"

definition sse_cfg :: server_config where
  "sse_cfg = \<lparr>transportType = Some ''sse'', command = '''', cmd_args = [],
     env_vars = [], url = ''http://localhost:8080''\<rparr>"

definition hub_with_session :: hub where
  \<comment> \<open>a hub that holds a session for "srv": handle 7, with a cached tool list\<close>
  "hub_with_session = McpHub_init\<lparr>connections :=
     [(''srv'', \<lparr>transport = Stdio, session = 7, client = ''1.0.0'', config = stdio_cfg,
        tools = Some (JList [JStr ''cached'']), status = ''connected'', error = None\<rparr>)]\<rparr>"

definition hub_with_sse :: hub where
  \<comment> \<open>a hub that holds an HTTP connection for "web"\<close>
  "hub_with_sse = McpHub_init\<lparr>connections :=
     [(''web'', \<lparr>transport = Sse ''http://localhost:8080'', session = 9, client = ''1.0.0'',
        config = sse_cfg, tools = None, status = ''connected'', error = None\<rparr>)]\<rparr>"

text \<open>
  What the transport delivers when asked for the tool list of a connection: the list, or
  nothing when the request raises, answers with a status other than 200, or its body
  cannot be read. It does not look at the cached list.
\<close>

definition fetch_outcome :: "env \<Rightarrow> connection \<Rightarrow> json option" where
  "fetch_outcome E c = (case transport c of
       Stdio \<Rightarrow> (case list_tools E (session c) of Inr ts \<Rightarrow> Some ts | Inl e \<Rightarrow> None)
     | Sse u \<Rightarrow> (case get_tools_list E u of
           Inr response \<Rightarrow> if status_code response = 200
             then (case json_body response of Inr ts \<Rightarrow> Some ts | Inl e \<Rightarrow> None) else None
         | Inl e \<Rightarrow> None))"

fun closes :: "nat \<Rightarrow> event \<Rightarrow> bool" where
  \<comment> \<open>the event is a close request that reaches the session with handle \<open>s\<close>: its own
      shutdown or close, or the closing of the exit stack, which holds every pipe session\<close>
  "closes s (Shutdown s') = (s' = s)"
| "closes s (HttpSessionClose s') = (s' = s)"
| "closes s ExitStackClose = True"
| "closes s ev = False"

fun is_connect_attempt :: "event \<Rightarrow> bool" where
  "is_connect_attempt (StdioConnect n) = True"
| "is_connect_attempt (HttpGet u) = True"
| "is_connect_attempt ev = False"

definition attempt_fails :: "env \<Rightarrow> server_config \<Rightarrow> nat \<Rightarrow> bool" where
  \<comment> \<open>the \<open>n\<close>-th connection attempt fails: the transport raises, or the HTTP probe
      answers with a status other than 200\<close>
  "attempt_fails E cfg n =
     (if transportType cfg = Some ''stdio'' then isl (stdio_connect E n)
      else if transportType cfg = Some ''sse'' then
        (case http_get E n (url cfg) of Inl e \<Rightarrow> True | Inr response \<Rightarrow> status_code response \<noteq> 200)
      else False)"

definition attempts_made :: "hub \<Rightarrow> nat" where
  "attempts_made h = length (filter is_connect_attempt (trace h))"

section \<open>The object store\<close>

text \<open>
  \<open>_preprocess_tool_args\<close> assigns into a dict, so its arguments are objects with an
  identity. A value is a scalar or a reference into the store; the store lists the
  dicts and lists that exist, and a new object gets the next free index. A reference
  that points outside the store stands for an object of some other class: it is
  truthy, it cannot be iterated and it has no \<open>copy\<close>.
\<close>

datatype pyval = VNone | VBool bool | VInt int | VFloat pyfloat | VStr string | VRef nat

datatype pyobj = ODict "(string \<times> pyval) list" | OList "pyval list"

type_synonym heap = "pyobj list"

definition alloc :: "pyobj \<Rightarrow> heap \<Rightarrow> nat \<times> heap" where
  "alloc ob H = (length H, H @ [ob])"

definition heap_get :: "heap \<Rightarrow> nat \<Rightarrow> pyobj option" where
  "heap_get H a = (if a < length H then Some (H ! a) else None)"

definition dict_of :: "heap \<Rightarrow> nat \<Rightarrow> (string \<times> pyval) list" where
  "dict_of H p = (case heap_get H p of Some (ODict d) \<Rightarrow> d | _ \<Rightarrow> [])"

definition setitem :: "nat \<Rightarrow> string \<Rightarrow> pyval \<Rightarrow> heap \<Rightarrow> heap" where
  \<comment> \<open>\<open>d[k] = v\<close> on the dict at \<open>p\<close>\<close>
  "setitem p k v H = H[p := ODict (AList.update k v (dict_of H p))]"

text \<open>
  \<open>str(v)\<close>. The text of a float and of a container is left to the printer \<open>pr\<close>,
  which reads the store.
\<close>

definition py_str :: "(heap \<Rightarrow> pyval \<Rightarrow> string) \<Rightarrow> heap \<Rightarrow> pyval \<Rightarrow> string" where
  "py_str pr H v = (case v of
       VNone \<Rightarrow> ''None'' | VBool b \<Rightarrow> str_bool b | VInt n \<Rightarrow> str_int n | VStr s \<Rightarrow> s
     | VFloat f \<Rightarrow> pr H v | VRef a \<Rightarrow> pr H v)"

definition truthy :: "heap \<Rightarrow> pyval \<Rightarrow> bool" where
  "truthy H v = (case v of
       VNone \<Rightarrow> False | VBool b \<Rightarrow> b | VInt n \<Rightarrow> n \<noteq> 0 | VStr s \<Rightarrow> s \<noteq> []
     | VFloat f \<Rightarrow> (case f of FFin m e \<Rightarrow> m \<noteq> 0 | _ \<Rightarrow> True)
     | VRef a \<Rightarrow> (case heap_get H a of
           Some (ODict d) \<Rightarrow> d \<noteq> [] | Some (OList xs) \<Rightarrow> xs \<noteq> [] | None \<Rightarrow> True))"

definition type_name :: "pyval \<Rightarrow> string" where
  \<comment> \<open>the class name, for the scalars\<close>
  "type_name v = (case v of
       VNone \<Rightarrow> ''NoneType'' | VBool b \<Rightarrow> ''bool'' | VInt n \<Rightarrow> ''int'' | VFloat f \<Rightarrow> ''float''
     | VStr s \<Rightarrow> ''str'' | VRef a \<Rightarrow> ''object'')"

definition quoted :: "string \<Rightarrow> string" where
  "quoted s = CHR 0x27 # s @ [CHR 0x27]"

text \<open>Iterating a string yields its characters; a character is one UTF-8 sequence.\<close>

definition is_continuation :: "char \<Rightarrow> bool" where
  "is_continuation c = (128 \<le> (of_char c :: nat) \<and> (of_char c :: nat) < 192)"

function utf8_chars :: "string \<Rightarrow> string list" where
  "utf8_chars [] = []"
| "utf8_chars (c # cs) =
     (c # takeWhile is_continuation cs) # utf8_chars (dropWhile is_continuation cs)"
  by pat_completeness auto
termination
  by (relation "measure length") (auto simp: length_dropWhile_le less_Suc_eq_le)

definition py_iter :: "heap \<Rightarrow> pyval \<Rightarrow> error + pyval list" where
  \<comment> \<open>the items \<open>for amt in v\<close> runs through\<close>
  "py_iter H v = (case v of
       VStr s \<Rightarrow> Inr (map VStr (utf8_chars s))
     | VRef a \<Rightarrow> (case heap_get H a of
           Some (OList xs) \<Rightarrow> Inr xs
         | Some (ODict d) \<Rightarrow> Inr (map (\<lambda>kv. VStr (fst kv)) d)
         | None \<Rightarrow> Inl (TypeError (quoted (type_name v) @ '' object is not iterable'')))
     | _ \<Rightarrow> Inl (TypeError (quoted (type_name v) @ '' object is not iterable'')))"

definition lower_char :: "char \<Rightarrow> char" where
  \<comment> \<open>\<open>str.lower\<close> on one byte; only an ASCII letter can become a letter of "true"\<close>
  "lower_char c = (case map_of (zip ''ABCDEFGHIJKLMNOPQRSTUVWXYZ''
       ''abcdefghijklmnopqrstuvwxyz'') c of Some d \<Rightarrow> d | None \<Rightarrow> c)"

section \<open>\<open>_preprocess_tool_args\<close>\<close>

definition numeric_fields :: "string list" where
  "numeric_fields = [''depositAmount'', ''cliffAmount'', ''startTime'', ''stopTime'',
     ''interval'', ''autoWithdrawInterval'']"

definition boolean_fields :: "string list" where
  "boolean_fields = [''autoWithdraw'', ''isFa'', ''execute'']"

definition single_numeric_fields :: "string list" where
  "single_numeric_fields = [''startTime'', ''stopTime'', ''interval'', ''autoWithdrawInterval'']"

definition stringify_field ::
  "(heap \<Rightarrow> pyval \<Rightarrow> string) \<Rightarrow> nat \<Rightarrow> heap \<Rightarrow> string \<Rightarrow> heap" where
  \<comment> \<open>\<open>if field in d and d[field] is not None: d[field] = str(d[field])\<close>\<close>
  "stringify_field pr p H field = (case map_of (dict_of H p) field of
       None \<Rightarrow> H
     | Some v \<Rightarrow> if v \<noteq> VNone then setitem p field (VStr (py_str pr H v)) H else H)"

definition coerce_boolean_field :: "nat \<Rightarrow> heap \<Rightarrow> string \<Rightarrow> heap" where
  \<comment> \<open>\<open>if field in d: if isinstance(d[field], str): d[field] = d[field].lower() == "true"\<close>\<close>
  "coerce_boolean_field p H field = (case map_of (dict_of H p) field of
       Some (VStr s) \<Rightarrow> setitem p field (VBool (map lower_char s = ''true'')) H
     | _ \<Rightarrow> H)"

definition stringify_list_field ::
  "(heap \<Rightarrow> pyval \<Rightarrow> string) \<Rightarrow> nat \<Rightarrow> string \<Rightarrow> heap \<Rightarrow> error option \<times> heap" where
  \<comment> \<open>\<open>if field in d and d[field]: d[field] = [str(amt) for amt in d[field]]\<close>; the
      first component is the exception raised, if any\<close>
  "stringify_list_field pr p field H = (case map_of (dict_of H p) field of
       None \<Rightarrow> (None, H)
     | Some v \<Rightarrow>
         if truthy H v then
           (case py_iter H v of
              Inl e \<Rightarrow> (Some e, H)
            | Inr items \<Rightarrow>
                (case alloc (OList (map (\<lambda>amt. VStr (py_str pr H amt)) items)) H of
                   (l, H1) \<Rightarrow> (None, setitem p field (VRef l) H1)))
         else (None, H))"

definition tool_fields :: "string \<Rightarrow> string list" where
  \<comment> \<open>the keys the function looks up for a tool, in the order it does\<close>
  "tool_fields tool_name =
     (if tool_name = ''create-stream'' then numeric_fields @ boolean_fields
      else if tool_name = ''batch-create-streams''
        then [''depositAmounts'', ''cliffAmounts''] @ single_numeric_fields
      else [])"

text \<open>
  The function itself. \<open>args.copy()\<close> makes a new dict with the same values. When
  \<open>args\<close> is a list, \<open>copy\<close> works too, and the first key found in it by \<open>in\<close> is then
  used as an index, which raises; a scalar has no \<open>copy\<close>.
\<close>

definition preprocess_tool_args ::
  "(heap \<Rightarrow> pyval \<Rightarrow> string) \<Rightarrow> string \<Rightarrow> pyval \<Rightarrow> heap \<Rightarrow> (error + pyval) \<times> heap" where
  "preprocess_tool_args pr tool_name args H =
    (case (case args of VRef a \<Rightarrow> heap_get H a | _ \<Rightarrow> None) of
       Some (ODict d) \<Rightarrow>
         (case alloc (ODict d) H of (p, H1) \<Rightarrow>
            if tool_name = ''create-stream'' then
              (Inr (VRef p),
               foldl (coerce_boolean_field p)
                 (foldl (stringify_field pr p) H1 numeric_fields) boolean_fields)
            else if tool_name = ''batch-create-streams'' then
              (case stringify_list_field pr p ''depositAmounts'' H1 of
                 (Some e, H2) \<Rightarrow> (Inl e, H2)
               | (None, H2) \<Rightarrow>
                   (case stringify_list_field pr p ''cliffAmounts'' H2 of
                      (Some e, H3) \<Rightarrow> (Inl e, H3)
                    | (None, H3) \<Rightarrow>
                        (Inr (VRef p), foldl (stringify_field pr p) H3 single_numeric_fields)))
            else (Inr (VRef p), H1))
     | Some (OList xs) \<Rightarrow>
         (case alloc (OList xs) H of (p, H1) \<Rightarrow>
            if list_ex (\<lambda>field. VStr field \<in> set xs) (tool_fields tool_name)
            then (Inl (TypeError ''list indices must be integers or slices, not str''), H1)
            else (Inr (VRef p), H1))
     | None \<Rightarrow>
         (Inl (AttributeError (quoted (type_name args) @ '' object has no attribute ''
                 @ quoted ''copy'')), H))"

section \<open>The dispatcher: \<open>process_response\<close>\<close>

text \<open>
  What the dispatcher is given: the JSON decoder, the printer, the session's
  \<open>call_tool\<close> (its first argument counts the calls made before) and the function that
  turns a result into text, \<open>_format_tool_result\<close> for the OpenAI service and \<open>str\<close> for
  the Anthropic one; both always return a string. A tool call raises an \<open>error\<close>;
  cancellation of the running task is outside this sequential model.
\<close>

record dispatcher =
  json_loads :: "string \<Rightarrow> heap \<Rightarrow> (error + pyval) \<times> heap"
  printer :: "heap \<Rightarrow> pyval \<Rightarrow> string"
  session_call :: "nat \<Rightarrow> string \<Rightarrow> heap \<Rightarrow> pyval \<Rightarrow> error + json"
  format_result :: "json \<Rightarrow> string"

record tool_call =
  tc_name :: string
  tc_arguments :: string

record message =
  content :: "string option"
  tool_calls :: "tool_call list"

record completion =
  choices :: "message list"

datatype block = TextBlock string | ToolUse string pyval | OtherBlock string

text \<open>
  The state of the loop: the store, the collected \<open>final_text\<close> and, for the record, the
  names of the tools called so far.
\<close>

record progress =
  objects :: heap
  final_text :: "string list"
  called :: "string list"

definition ok_marker :: "string \<Rightarrow> string \<Rightarrow> string" where
  "ok_marker tool_name result_str = marker_open @ tool_name @ marker_result @ result_str @ '']''"

definition error_marker :: "string \<Rightarrow> string \<Rightarrow> string" where
  "error_marker tool_name msg = marker_open @ tool_name @ marker_failed @ msg @ '']''"

definition call_and_annotate ::
  "dispatcher \<Rightarrow> nat \<Rightarrow> string \<Rightarrow> heap \<Rightarrow> pyval \<Rightarrow> string" where
  \<comment> \<open>the \<open>try\<close> block around \<open>session.call_tool\<close>: the text appended to \<open>final_text\<close>\<close>
  "call_and_annotate D i tool_name H processed_args =
     (case session_call D i tool_name H processed_args of
        Inr result \<Rightarrow> ok_marker tool_name (format_result D result)
      | Inl e \<Rightarrow> error_marker tool_name (str_error e))"

fun py_join :: "string \<Rightarrow> string list \<Rightarrow> string" where
  "py_join sep [] = []"
| "py_join sep [x] = x"
| "py_join sep (x # y # ys) = x @ sep @ py_join sep (y # ys)"

fun process_tool_calls ::
  "dispatcher \<Rightarrow> nat \<Rightarrow> tool_call list \<Rightarrow> progress \<Rightarrow> error + progress" where
  "process_tool_calls D i [] st = Inr st"
| "process_tool_calls D i (tc # tcs) st =
    (case json_loads D (tc_arguments tc) (objects st) of
       (Inl e, H1) \<Rightarrow> Inl e
     | (Inr tool_args, H1) \<Rightarrow>
        (case preprocess_tool_args (printer D) (tc_name tc) tool_args H1 of
           (Inl e, H2) \<Rightarrow> Inl e
         | (Inr processed_args, H2) \<Rightarrow>
             process_tool_calls D (i + 1) tcs
               \<lparr>objects = H2,
                final_text = final_text st
                  @ [call_and_annotate D i (tc_name tc) H2 processed_args],
                called = called st @ [tc_name tc]\<rparr>))"

definition content_list :: "message \<Rightarrow> string list" where
  \<comment> \<open>\<open>if message.content: final_text.append(message.content)\<close>\<close>
  "content_list m = (case content m of None \<Rightarrow> [] | Some c \<Rightarrow> if c \<noteq> [] then [c] else [])"

definition final_answer :: "string list \<Rightarrow> string" where
  \<comment> \<open>the last line of both \<open>process_response\<close> functions\<close>
  "final_answer ft = (if ft \<noteq> [] then py_join [CHR 0x0A] ft else msg_no_result)"

definition dispatch_openai :: "dispatcher \<Rightarrow> completion \<Rightarrow> heap \<Rightarrow> error + progress" where
  \<comment> \<open>\<open>OpenAIService.process_response\<close> up to its last line, with a session\<close>
  "dispatch_openai D response H = (case choices response of
       [] \<Rightarrow> Inr \<lparr>objects = H, final_text = [], called = []\<rparr>
     | m # others \<Rightarrow>
         process_tool_calls D 0 (tool_calls m)
           \<lparr>objects = H, final_text = content_list m, called = []\<rparr>)"

definition process_response_openai ::
  "dispatcher \<Rightarrow> completion \<Rightarrow> string \<Rightarrow> nat option \<Rightarrow> heap \<Rightarrow> error + string" where
  "process_response_openai D response server_name sess H = (case sess of
       None \<Rightarrow> Inr msg_no_session
     | Some s \<Rightarrow> (case dispatch_openai D response H of
           Inl e \<Rightarrow> Inl e
         | Inr st \<Rightarrow> Inr (final_answer (final_text st))))"

fun process_blocks ::
  "dispatcher \<Rightarrow> nat \<Rightarrow> block list \<Rightarrow> progress \<Rightarrow> error + progress" where
  "process_blocks D i [] st = Inr st"
| "process_blocks D i (TextBlock t # bs) st =
     process_blocks D i bs (st\<lparr>final_text := final_text st @ [t]\<rparr>)"
| "process_blocks D i (ToolUse tool_name tool_args # bs) st =
    (case preprocess_tool_args (printer D) tool_name tool_args (objects st) of
       (Inl e, H2) \<Rightarrow> Inl e
     | (Inr processed_args, H2) \<Rightarrow>
         process_blocks D (i + 1) bs
           \<lparr>objects = H2,
            final_text = final_text st @ [call_and_annotate D i tool_name H2 processed_args],
            called = called st @ [tool_name]\<rparr>)"
| "process_blocks D i (OtherBlock ty # bs) st = process_blocks D i bs st"

definition process_response_anthropic ::
  "dispatcher \<Rightarrow> block list \<Rightarrow> string \<Rightarrow> nat option \<Rightarrow> heap \<Rightarrow> error + string" where
  \<comment> \<open>\<open>AnthropicService.process_response\<close>; the block list is
      \<open>response.get("content", [])\<close>, and \<open>sess\<close> is the parameter \<open>session\<close>\<close>
  "process_response_anthropic D blocks server_name sess H = (case sess of
       None \<Rightarrow> Inr msg_no_session
     | Some s \<Rightarrow>
         (case process_blocks D 0 blocks \<lparr>objects = H, final_text = [], called = []\<rparr> of
            Inl e \<Rightarrow> Inl e
          | Inr st \<Rightarrow> Inr (final_answer (final_text st))))"

text \<open>
  "The arguments of every invocation are accepted": decoding them and preprocessing
  them raises for none, in the store each of them meets.
\<close>

fun arguments_accepted :: "dispatcher \<Rightarrow> tool_call list \<Rightarrow> heap \<Rightarrow> bool" where
  "arguments_accepted D [] H = True"
| "arguments_accepted D (tc # tcs) H =
    (case json_loads D (tc_arguments tc) H of
       (Inl e, H1) \<Rightarrow> False
     | (Inr tool_args, H1) \<Rightarrow>
        (case preprocess_tool_args (printer D) (tc_name tc) tool_args H1 of
           (Inl e, H2) \<Rightarrow> False
         | (Inr processed_args, H2) \<Rightarrow> arguments_accepted D tcs H2))"

fun inputs_accepted :: "dispatcher \<Rightarrow> block list \<Rightarrow> heap \<Rightarrow> bool" where
  "inputs_accepted D [] H = True"
| "inputs_accepted D (ToolUse tool_name tool_args # bs) H =
    (case preprocess_tool_args (printer D) tool_name tool_args H of
       (Inl e, H2) \<Rightarrow> False
     | (Inr processed_args, H2) \<Rightarrow> inputs_accepted D bs H2)"
| "inputs_accepted D (b # bs) H = inputs_accepted D bs H"

text \<open>
  What an annotation of a tool is: the text the \<open>try\<close> block around its call
  produces, for some call.
\<close>

definition annotates :: "dispatcher \<Rightarrow> string \<Rightarrow> string \<Rightarrow> bool" where
  "annotates D tool_name a = (\<exists>j H p. a = call_and_annotate D j tool_name H p)"

fun tool_uses :: "block list \<Rightarrow> string list" where
  "tool_uses [] = []"
| "tool_uses (ToolUse tool_name tool_args # bs) = tool_name # tool_uses bs"
| "tool_uses (b # bs) = tool_uses bs"

definition demo_dispatcher :: dispatcher where
  \<comment> \<open>an example: the decoder reads every argument text as a new empty dict, the first
      tool call raises and the later ones succeed\<close>
  "demo_dispatcher = \<lparr>
     json_loads = (\<lambda>s H. (Inr (VRef (length H)), H @ [ODict []])),
     printer = (\<lambda>H v. ''''),
     session_call = (\<lambda>i tool_name H p.
        if i = 0 then Inl (Exception ''boom'') else Inr (JStr ''done'')),
     format_result = (\<lambda>r. ''done'')\<rparr>"

definition two_calls :: completion where
  \<comment> \<open>a completion without text that asks for tool "a", then tool "b"\<close>
  "two_calls = \<lparr>choices = [\<lparr>content = None, tool_calls =
     [\<lparr>tc_name = ''a'', tc_arguments = ''{}''\<rparr>, \<lparr>tc_name = ''b'', tc_arguments = ''{}''\<rparr>]\<rparr>]\<rparr>"

text \<open>
  The texts the loops append when no arguments are rejected: one annotation for each
  invocation, made by the call the loop makes for it, in the store the loop has
  reached; for the Anthropic service also the text of each text block.
\<close>

fun annotations :: "dispatcher \<Rightarrow> nat \<Rightarrow> tool_call list \<Rightarrow> heap \<Rightarrow> string list" where
  "annotations D i [] H = []"
| "annotations D i (tc # tcs) H =
    (case json_loads D (tc_arguments tc) H of
       (Inl e, H1) \<Rightarrow> []
     | (Inr tool_args, H1) \<Rightarrow>
        (case preprocess_tool_args (printer D) (tc_name tc) tool_args H1 of
           (Inl e, H2) \<Rightarrow> []
         | (Inr processed_args, H2) \<Rightarrow>
             call_and_annotate D i (tc_name tc) H2 processed_args
               # annotations D (i + 1) tcs H2))"

fun block_texts :: "dispatcher \<Rightarrow> nat \<Rightarrow> block list \<Rightarrow> heap \<Rightarrow> string list" where
  "block_texts D i [] H = []"
| "block_texts D i (TextBlock t # bs) H = t # block_texts D i bs H"
| "block_texts D i (ToolUse tool_name tool_args # bs) H =
    (case preprocess_tool_args (printer D) tool_name tool_args H of
       (Inl e, H2) \<Rightarrow> []
     | (Inr processed_args, H2) \<Rightarrow>
         call_and_annotate D i tool_name H2 processed_args # block_texts D (i + 1) bs H2)"
| "block_texts D i (OtherBlock ty # bs) H = block_texts D i bs H"

definition three_blocks :: "block list" where
  \<comment> \<open>an Anthropic response: a text, then tool "a", then tool "b", both with the
      arguments object at index 0 of the store\<close>
  "three_blocks = [TextBlock ''hello'', ToolUse ''a'' (VRef 0), ToolUse ''b'' (VRef 0)]"

text \<open>
  A later store keeps the first \<open>n\<close> objects of an earlier one: they are the same
  objects with the same contents, and nothing was removed.
\<close>

definition kept :: "nat \<Rightarrow> heap \<Rightarrow> heap \<Rightarrow> bool" where
  "kept n H H' = (take n H' = take n H \<and> length H \<le> length H')"


section \<open>Decimal strings are exact\<close>

lemma digit_val_nth: "d < 10 \<Longrightarrow> digit_val (''0123456789'' ! d) = d"
  by (auto simp: digit_val_def nth_Cons')

lemma digit_nth_not_minus: "d < 10 \<Longrightarrow> ''0123456789'' ! d \<noteq> CHR ''-''"
  by (auto simp: nth_Cons')

lemma nat_of_digits_snoc: "nat_of_digits (s @ [c]) = 10 * nat_of_digits s + digit_val c"
  by (simp add: nat_of_digits_def)

lemma nat_of_digits_digits10: "nat_of_digits (digits10 n) = n"
proof (induction n rule: digits10.induct)
  case (1 n)
  show ?case
  proof (cases "n < 10")
    case True
    then show ?thesis by (simp add: nat_of_digits_def digit_val_nth)
  next
    case False
    then have "nat_of_digits (digits10 n) =
        10 * nat_of_digits (digits10 (n div 10)) + digit_val (''0123456789'' ! (n mod 10))"
      by (subst digits10.simps) (simp add: nat_of_digits_snoc del: digits10.simps)
    also have "\<dots> = 10 * (n div 10) + n mod 10"
      using 1 False by (simp add: digit_val_nth del: digits10.simps)
    finally show ?thesis by simp
  qed
qed

lemma digits10_nonempty: "digits10 n \<noteq> []"
  by (subst digits10.simps) simp

lemma hd_digits10_not_minus: "hd (digits10 n) \<noteq> CHR ''-''"
proof (induction n rule: digits10.induct)
  case (1 n)
  show ?case
  proof (cases "n < 10")
    case True
    then show ?thesis using digit_nth_not_minus[of n] by simp
  next
    case False
    then have "digits10 n = digits10 (n div 10) @ [''0123456789'' ! (n mod 10)]"
      by (subst digits10.simps) simp
    then show ?thesis
      using 1 False digits10_nonempty[of "n div 10"] by (simp del: digits10.simps)
  qed
qed

lemma int_of_decimal_str_int: "int_of_decimal (str_int n) = n"
proof (cases "n < 0")
  case True
  then show ?thesis
    by (simp add: int_of_decimal_def str_int_def nat_of_digits_digits10 del: digits10.simps)
next
  case False
  obtain c ds where cd: "digits10 (nat n) = c # ds"
    using digits10_nonempty[of "nat n"] by (cases "digits10 (nat n)") auto
  with hd_digits10_not_minus[of "nat n"] have "c \<noteq> CHR ''-''" by simp
  with False cd nat_of_digits_digits10[of "nat n"] show ?thesis
    by (simp add: int_of_decimal_def str_int_def del: digits10.simps)
qed

section \<open>Properties of the big-integer conversion\<close>

lemma at_path_convert_bigint:
  "at_path (convert_bigint fs v) p = map_option (convert_bigint fs) (at_path v p)"
proof (induction p arbitrary: v)
  case Nil
  then show ?case by simp
next
  case (Cons s p)
  show ?case
  proof (cases v)
    case (JDict kvs)
    then show ?thesis using Cons
      by (cases s) (auto simp: map_of_map split: option.splits)
  next
    case (JList xs)
    then show ?thesis using Cons by (cases s) auto
  qed (cases s; simp)+
qed

lemma convert_args_bigint_eq: "convert_args_bigint fs v = convert_bigint fs v"
  by (induction v) auto

lemma convert_bigint_twice: "convert_bigint fs (convert_bigint fs v) = convert_bigint fs v"
  by (induction v) auto

lemma digits10_all_digits: "list_all (\<lambda>d. d \<in> set ''0123456789'') (digits10 n)"
proof (induction n rule: digits10.induct)
  case (1 n)
  have m: "\<And>d. d < 10 \<Longrightarrow> ''0123456789'' ! d \<in> set ''0123456789''"
    by (rule nth_mem) simp
  show ?case
  proof (cases "n < 10")
    case True
    then show ?thesis using m[of n] by (subst digits10.simps) simp
  next
    case False
    have "n mod 10 < 10" by simp
    then have "''0123456789'' ! (n mod 10) \<in> set ''0123456789''" by (rule m)
    with False 1 show ?thesis
      by (subst digits10.simps) (simp del: digits10.simps)
  qed
qed

lemma is_decimal_string_str_int: "is_decimal_string (str_int n)"
proof (cases "n < 0")
  case True
  then show ?thesis
    using digits10_all_digits[of "nat (- n)"] digits10_nonempty[of "nat (- n)"]
    by (simp add: is_decimal_string_def str_int_def del: digits10.simps)
next
  case False
  obtain c ds where cd: "digits10 (nat n) = c # ds"
    using digits10_nonempty[of "nat n"] by (cases "digits10 (nat n)") auto
  with hd_digits10_not_minus[of "nat n"] have "c \<noteq> CHR ''-''" by simp
  with False cd digits10_all_digits[of "nat n"] show ?thesis
    by (simp add: is_decimal_string_def str_int_def del: digits10.simps)
qed

lemma big_free_convert_bigint: "big_free (convert_bigint fs v)"
  by (induction v) (auto simp: list_all_iff)

lemma convert_bigint_big_free: "big_free v \<Longrightarrow> convert_bigint fs v = v"
  by (induction v) (auto simp: list_all_iff intro!: map_idI)

text \<open>
  C3, as the code has it. On every value tree the conversion keeps the shape of the
  tree and acts on the value at each position. An integer whose absolute value exceeds
  \<open>2^53 - 1\<close> becomes the string of its decimal digits, which is a decimal string and
  reads back as the same integer. A float beyond the bound becomes the string \<open>str\<close>
  prints for it. No number beyond the bound is left in the result, and a tree that
  holds none is returned as it is. The value 9223372036854775807 becomes the string
  "9223372036854775807". The copy of the function applied to tool arguments computes
  the same.
\<close>

theorem convert_bigint_numeric_safety:
  "at_path (convert_bigint fs v) p = map_option (convert_bigint fs) (at_path v p)
   \<and> convert_bigint fs (JInt n) = (if 2 ^ 53 - 1 < \<bar>n\<bar> then JStr (str_int n) else JInt n)
   \<and> is_decimal_string (str_int n)
   \<and> int_of_decimal (str_int n) = n
   \<and> convert_bigint fs (JFloat f) =
        (if float_abs_gt f (2 ^ 53 - 1) then JStr (str_float fs f) else JFloat f)
   \<and> big_free (convert_bigint fs v)
   \<and> (big_free v \<longrightarrow> convert_bigint fs v = v)
   \<and> convert_bigint fs (JBool b) = JBool b
   \<and> convert_bigint fs (JStr s) = JStr s
   \<and> convert_bigint fs JNull = JNull
   \<and> convert_bigint fs (JInt 9223372036854775807) = JStr ''9223372036854775807''
   \<and> convert_args_bigint fs v = convert_bigint fs v"
proof -
  have ex: "convert_bigint fs (JInt 9223372036854775807) = JStr ''9223372036854775807''"
    by (simp add: str_int_def)
  show ?thesis
    using ex by (simp add: at_path_convert_bigint int_of_decimal_str_int convert_args_bigint_eq
        is_decimal_string_str_int big_free_convert_bigint convert_bigint_big_free
        del: digits10.simps)
qed

text \<open>
  C3 at a concrete tree without a number beyond the bound: it is returned as it is.
\<close>

theorem convert_bigint_numeric_safety_witness:
  "big_free (JDict [(''amount'', JInt 5), (''rates'', JList [JFloat (FFin 3 (- 1)), JNull])])
   \<and> convert_bigint blank_printer
        (JDict [(''amount'', JInt 5), (''rates'', JList [JFloat (FFin 3 (- 1)), JNull])])
      = JDict [(''amount'', JInt 5), (''rates'', JList [JFloat (FFin 3 (- 1)), JNull])]"
proof -
  have b: "big_free (JDict [(''amount'', JInt 5), (''rates'', JList [JFloat (FFin 3 (- 1)), JNull])])"
    by simp
  from convert_bigint_numeric_safety[of blank_printer
      "JDict [(''amount'', JInt 5), (''rates'', JList [JFloat (FFin 3 (- 1)), JNull])]"] b
  show ?thesis by blast
qed

text \<open>
  C3 as stated fails for floats. Positive infinity, which \<open>json.loads\<close> returns for
  \<open>1e999\<close>, exceeds the bound, and the conversion turns it into the string "inf", which
  is not a decimal string of any number.
\<close>

theorem convert_bigint_float_counterexample:
  "float_abs_gt (FInf False) (2 ^ 53 - 1)
   \<and> convert_bigint blank_printer (JFloat (FInf False)) = JStr ''inf''
   \<and> \<not> is_decimal_string ''inf''"
  by (simp add: is_decimal_string_def)

text \<open>
  C10. Applying the conversion twice gives what applying it once gives, for both copies
  of the function: the strings written by the first pass are not numbers, so the second
  pass returns them as they are.
\<close>

theorem convert_bigint_idempotent:
  "convert_bigint fs (convert_bigint fs v) = convert_bigint fs v
   \<and> convert_args_bigint fs (convert_args_bigint fs v) = convert_args_bigint fs v"
  by (simp add: convert_bigint_twice convert_args_bigint_eq)

section \<open>\<open>cleanup\<close> never raises\<close>

lemma shutdown_session_returns: "fst (shutdown_session E c h) = None"
proof (cases "shutdown E (session c)")
  case None
  then show ?thesis by (simp add: shutdown_session_def)
next
  case (Some x)
  have "caught [TimeoutError_class, CancelledError_class, Exception_class] x"
    by (cases x) (simp_all add: caught_def)
  with Some show ?thesis by (simp add: shutdown_session_def)
qed

lemma cleanup_loop_returns: "fst (cleanup_loop E cs h) = None"
proof (induction cs arbitrary: h)
  case Nil
  then show ?case by simp
next
  case (Cons a cs)
  obtain server_name c where a: "a = (server_name, c)" by (cases a)
  show ?case
  proof (cases "transport c = Stdio")
    case True
    obtain r h' where sh: "shutdown_session E c h = (r, h')" by (cases "shutdown_session E c h")
    with shutdown_session_returns[of E c h] have "r = None" by simp
    with a True sh Cons show ?thesis by simp
  next
    case False
    with a Cons show ?thesis by simp
  qed
qed

lemma close_exit_stack_returns: "fst (close_exit_stack E h) = None"
proof (cases "aclose E")
  case None
  then show ?thesis by (simp add: close_exit_stack_def)
next
  case (Some x)
  have "caught [TimeoutError_class, CancelledError_class, Exception_class] x"
    by (cases x) (simp_all add: caught_def)
  with Some show ?thesis by (simp add: close_exit_stack_def)
qed

lemma cleanup_body_returns: "fst (cleanup_body E h) = None"
proof -
  obtain r h' where l: "cleanup_loop E (connections h) h = (r, h')"
    by (cases "cleanup_loop E (connections h) h")
  with cleanup_loop_returns[of E "connections h" h] have "r = None" by simp
  with l show ?thesis by (simp add: cleanup_body_def close_exit_stack_returns)
qed

lemma cleanup_returns: "fst (cleanup E h) = None"
proof -
  obtain r h' where b: "cleanup_body E h = (r, h')" by (cases "cleanup_body E h")
  with cleanup_body_returns[of E h] have "r = None" by simp
  with b show ?thesis by (simp add: cleanup_def)
qed

lemma cleanup_empties: "connections (snd (cleanup E h)) = []"
  by (cases "cleanup_body E h") (auto simp: cleanup_def split: option.splits)

text \<open>
  C4. From every hub state and with any answers of the sessions and of the exit stack,
  \<open>cleanup\<close> raises nothing and leaves the registry empty; called again on the state the
  first call left, it again raises nothing and leaves the registry empty.
\<close>

theorem cleanup_never_raises_registry_empty:
  "fst (cleanup E h) = None \<and> connections (snd (cleanup E h)) = []
   \<and> fst (cleanup E' (snd (cleanup E h))) = None
   \<and> connections (snd (cleanup E' (snd (cleanup E h)))) = []"
  by (simp add: cleanup_returns cleanup_empties)

section \<open>\<open>call_tool\<close>\<close>

text \<open>
  C5. When the server name is not in the registry, \<open>call_tool\<close> raises the exception
  that says no connection was found and the hub is as before: nothing was asked of any
  transport. When the name is registered, an exception raised by the session call or by
  the HTTP request is the exception \<open>call_tool\<close> raises, and a status other than 200 is
  raised as an exception carrying the status and the body text.
\<close>

theorem call_tool_unknown_server_or_propagates:
  "(map_of (connections h) server_name = None \<longrightarrow>
      call_tool E server_name tool_name tool_args h =
        (Inl (Exception (msg_no_connection @ server_name)), h))
   \<and> (\<forall>c e. map_of (connections h) server_name = Some c \<and> transport c = Stdio
          \<and> session_call_tool E (session c) tool_name tool_args = Inl e \<longrightarrow>
        fst (call_tool E server_name tool_name tool_args h) = Inl e)
   \<and> (\<forall>c u e. map_of (connections h) server_name = Some c \<and> transport c = Sse u
          \<and> post_tools_call E u tool_name tool_args = Inl e \<longrightarrow>
        fst (call_tool E server_name tool_name tool_args h) = Inl e)
   \<and> (\<forall>c u r. map_of (connections h) server_name = Some c \<and> transport c = Sse u
          \<and> post_tools_call E u tool_name tool_args = Inr r \<and> status_code r \<noteq> 200 \<longrightarrow>
        fst (call_tool E server_name tool_name tool_args h) =
          Inl (Exception (msg_call_failed @ str_int (int (status_code r)) @ '', '' @ text_body r)))"
  by (simp add: call_tool_def)

text \<open>
  The three cases of C5 at concrete hubs: an unknown name, a pipe session whose call
  raises, and an HTTP connection whose request raises.
\<close>

theorem call_tool_unknown_server_or_propagates_witness:
  "call_tool serving_env ''missing-server'' ''x'' (JDict []) McpHub_init =
     (Inl (Exception (msg_no_connection @ ''missing-server'')), McpHub_init)
   \<and> fst (call_tool refusing_env ''srv'' ''x'' (JDict []) hub_with_session) =
       Inl (Exception ''tool failed'')
   \<and> fst (call_tool refusing_env ''web'' ''x'' (JDict []) hub_with_sse) =
       Inl (Exception ''unreachable'')"
proof -
  have a: "map_of (connections McpHub_init) ''missing-server'' = None"
    by (simp add: McpHub_init_def)
  have b: "map_of (connections hub_with_session) ''srv'' =
      Some \<lparr>transport = Stdio, session = 7, client = ''1.0.0'', config = stdio_cfg,
        tools = Some (JList [JStr ''cached'']), status = ''connected'', error = None\<rparr>"
    by (simp add: hub_with_session_def)
  have c: "map_of (connections hub_with_sse) ''web'' =
      Some \<lparr>transport = Sse ''http://localhost:8080'', session = 9, client = ''1.0.0'',
        config = sse_cfg, tools = None, status = ''connected'', error = None\<rparr>"
    by (simp add: hub_with_sse_def)
  show ?thesis
    using call_tool_unknown_server_or_propagates[of McpHub_init "''missing-server''" serving_env "''x''" "JDict []"]
      call_tool_unknown_server_or_propagates[of hub_with_session "''srv''" refusing_env "''x''" "JDict []"]
      call_tool_unknown_server_or_propagates[of hub_with_sse "''web''" refusing_env "''x''" "JDict []"]
      a b c
    by (simp add: refusing_env_def)
qed


section \<open>\<open>load_tools\<close> and \<open>connect_to_server\<close>\<close>

declare connect_loop.simps [simp del]

lemma trace_log: "trace (log ev h) = trace h @ [ev]"
  by (simp add: log_def)

lemma connections_log: "connections (log ev h) = connections h"
  by (simp add: log_def)

lemma map_of_delete_same: "map_of (AList.delete k xs) k = None"
  by (simp add: AList.delete_conv')

lemma remove_existing_absent: "map_of (connections (remove_existing name h)) name = None"
  by (simp add: remove_existing_def map_of_delete_same)

lemma trace_remove_existing: "trace (remove_existing name h) = trace h"
  by (simp add: remove_existing_def)

lemma keys_absent: "map_of xs k = None \<Longrightarrow> k \<notin> set (map fst xs)"
  by (simp add: map_of_eq_None_iff)

lemma count_after_store:
  assumes "map_of (connections h) name = None"
  shows "count_list (map fst (connections (store name tr s cfg h))) name = 1"
  using assms keys_absent[of "connections h" name]
  by (simp add: store_def update_keys)

lemma lookup_after_store:
  "map_of (connections (store name tr s cfg h)) name =
     Some \<lparr>transport = tr, session = s, client = client_version h, config = cfg,
        tools = None, status = ''connected'', error = None\<rparr>"
  by (simp add: store_def update_conv')

lemma trace_store: "trace (store name tr s cfg h) = trace h"
  by (simp add: store_def)

lemma key_present: "map_of xs k = Some v \<Longrightarrow> k \<in> set (map fst xs)"
  by (force dest: map_of_SomeD)

lemma not_closes_fetch_event: "\<not> closes s (fetch_event c)"
  by (cases "transport c") (simp_all add: fetch_event_def)

lemma load_tools_missing:
  "map_of (connections h) n = None \<Longrightarrow> load_tools E n h = (JList [], h)"
  by (simp add: load_tools_def)

lemma load_tools_fetched:
  assumes "map_of (connections h) n = Some c" "fetch_outcome E c = Some ts"
  shows "load_tools E n h = (ts, h\<lparr>connections := AList.update n (c\<lparr>tools := Some ts\<rparr>) (connections h),
           trace := trace h @ [fetch_event c]\<rparr>)"
  using assms
  by (auto simp: load_tools_def fetch_outcome_def fetch_event_def set_tools_def log_def
      split: transport.splits sum.splits if_splits)

lemma load_tools_not_fetched:
  assumes "map_of (connections h) n = Some c" "fetch_outcome E c = None"
  shows "load_tools E n h = (JList [], h\<lparr>trace := trace h @ [fetch_event c]\<rparr>)"
  using assms
  by (auto simp: load_tools_def fetch_outcome_def fetch_event_def set_tools_def log_def
      split: transport.splits sum.splits if_splits)

lemma load_tools_keeps:
  "map fst (connections (snd (load_tools E n h))) = map fst (connections h)
   \<and> map_option status (map_of (connections (snd (load_tools E n h))) k) =
       map_option status (map_of (connections h) k)
   \<and> filter (closes s) (trace (snd (load_tools E n h))) = filter (closes s) (trace h)"
proof (cases "map_of (connections h) n")
  case None
  then show ?thesis by (simp add: load_tools_missing)
next
  case (Some c)
  show ?thesis
  proof (cases "fetch_outcome E c")
    case None
    with Some show ?thesis
      by (simp add: load_tools_not_fetched not_closes_fetch_event)
  next
    case (Some ts)
    with \<open>map_of (connections h) n = Some c\<close> show ?thesis
      using key_present[of "connections h" n c]
      by (auto simp: load_tools_fetched not_closes_fetch_event update_keys update_conv')
  qed
qed

lemma load_tools_bounded_keeps:
  "map fst (connections (load_tools_bounded E a n h)) = map fst (connections h)
   \<and> map_option status (map_of (connections (load_tools_bounded E a n h)) k) =
       map_option status (map_of (connections h) k)
   \<and> filter (closes s) (trace (load_tools_bounded E a n h)) = filter (closes s) (trace h)"
proof (cases "load_timeout E a")
  case True
  then show ?thesis
    by (cases "map_of (connections h) n")
      (simp_all add: load_tools_bounded_def trace_log connections_log not_closes_fetch_event)
next
  case False
  then show ?thesis
    using load_tools_keeps[of E n h k s] by (simp add: load_tools_bounded_def)
qed

lemma stored_then_loaded:
  assumes "map_of (connections h) name = None"
  shows "count_list (map fst (connections (load_tools_bounded E a name (store name tr s cfg h)))) name = 1
     \<and> map_option status (map_of (connections (load_tools_bounded E a name (store name tr s cfg h))) name)
         = Some ''connected''"
  using assms load_tools_bounded_keeps[of E a name "store name tr s cfg h" name]
  by (simp add: count_after_store lookup_after_store)

lemma closes_mark_disconnected: "trace (mark_disconnected n m h) = trace h"
  by (cases "map_of (connections h) n") (simp_all add: mark_disconnected_def)

lemma handle_error_not_True: "handle_error name retries a e h \<noteq> Return True h'"
  by (cases e) (simp_all add: handle_error_def)

lemma handle_error_closes:
  "handle_error name retries a e h = Retry h' \<or> handle_error name retries a e h = Return b h'
   \<Longrightarrow> filter (closes s) (trace h') = filter (closes s) (trace h)"
  by (cases e) (auto simp: handle_error_def closes_mark_disconnected trace_log split: if_splits)

lemma connect_attempt_closes:
  assumes "\<forall>n. http_session E n \<noteq> s"
    and "connect_attempt E name cfg retries a h = Retry h'
           \<or> connect_attempt E name cfg retries a h = Return b h'"
  shows "filter (closes s) (trace h') = filter (closes s) (trace h)"
proof -
  from assms(1) have nc: "\<not> closes s (HttpSessionClose (http_session E (nat a)))" by simp
  show ?thesis
    using assms(2) nc
    by (auto simp: connect_attempt_def load_tools_bounded_keeps trace_store trace_log
        trace_remove_existing
        split: if_splits sum.splits dest!: handle_error_closes[where s = s])
qed

lemma connect_attempt_True_form:
  assumes "connect_attempt E name cfg retries a h = Return True h'"
  shows "\<exists>tr s0 ev. h' = load_tools_bounded E (nat a) name
             (store name tr s0 cfg (log ev (remove_existing name h)))
           \<or> h' = log (HttpSessionClose s0) (load_tools_bounded E (nat a) name
             (store name tr s0 cfg (log ev (remove_existing name h))))"
  using assms
  by (auto simp: connect_attempt_def handle_error_not_True split: if_splits sum.splits)

lemma connect_attempt_True:
  assumes "connect_attempt E name cfg retries a h = Return True h'"
  shows "count_list (map fst (connections h')) name = 1
         \<and> map_option status (map_of (connections h') name) = Some ''connected''"
proof -
  from connect_attempt_True_form[OF assms] obtain tr s0 ev where
    h': "h' = load_tools_bounded E (nat a) name
             (store name tr s0 cfg (log ev (remove_existing name h)))
           \<or> h' = log (HttpSessionClose s0) (load_tools_bounded E (nat a) name
             (store name tr s0 cfg (log ev (remove_existing name h))))" by blast
  have "map_of (connections (log ev (remove_existing name h))) name = None"
    by (simp add: connections_log remove_existing_absent)
  from stored_then_loaded[OF this, of E "nat a" tr s0 cfg] h' show ?thesis
    by (auto simp: connections_log)
qed

lemma connect_loop_True:
  "connect_loop E name cfg retries a h = (Some True, h') \<Longrightarrow>
     count_list (map fst (connections h')) name = 1
     \<and> map_option status (map_of (connections h') name) = Some ''connected''"
proof (induction E name cfg retries a h rule: connect_loop.induct)
  case (1 E name cfg retries attempt h)
  show ?case
  proof (cases "attempt \<le> retries")
    case False
    with "1.prems" show ?thesis by (simp add: connect_loop.simps)
  next
    case le: True
    show ?thesis
    proof (cases "connect_attempt E name cfg retries (attempt + 1) h")
      case (Return b h'')
      with le "1.prems" have "b = True" "h'' = h'"
        by (simp_all add: connect_loop.simps[of E name cfg retries attempt h])
      with Return show ?thesis using connect_attempt_True by blast
    next
      case (Retry h'')
      with le "1.prems" have "connect_loop E name cfg retries (attempt + 1) h'' = (Some True, h')"
        by (simp add: connect_loop.simps[of E name cfg retries attempt h])
      with "1.IH"[OF le Retry] show ?thesis by simp
    qed
  qed
qed

lemma connect_loop_closes:
  assumes "\<forall>n. http_session E n \<noteq> s"
  shows "filter (closes s) (trace (snd (connect_loop E name cfg retries a h))) =
   filter (closes s) (trace h)"
  using assms
proof (induction E name cfg retries a h rule: connect_loop.induct)
  case (1 E name cfg retries attempt h)
  show ?case
  proof (cases "attempt \<le> retries")
    case False
    then show ?thesis by (simp add: connect_loop.simps)
  next
    case le: True
    show ?thesis
    proof (cases "connect_attempt E name cfg retries (attempt + 1) h")
      case (Return b h'')
      with le have "snd (connect_loop E name cfg retries attempt h) = h''"
        by (simp add: connect_loop.simps[of E name cfg retries attempt h])
      with Return connect_attempt_closes[OF "1.prems"] show ?thesis by metis
    next
      case (Retry h'')
      with le have "connect_loop E name cfg retries attempt h =
          connect_loop E name cfg retries (attempt + 1) h''"
        by (simp add: connect_loop.simps[of E name cfg retries attempt h])
      with "1.IH"[OF le Retry "1.prems"] Retry connect_attempt_closes[OF "1.prems"]
      show ?thesis by metis
    qed
  qed
qed

text \<open>
  C6, as the code has it. \<open>load_tools\<close> returns the empty list and leaves the hub as it
  is when the name is not registered. For a registered name it always asks the
  transport, whatever list is cached: when the transport delivers a list, that list is
  returned and stored on the session; when it delivers none, the empty list is returned
  and the session keeps what it had.
\<close>

theorem load_tools_always_fetches:
  "(map_of (connections h) n = None \<longrightarrow> load_tools E n h = (JList [], h))
   \<and> (\<forall>c ts. map_of (connections h) n = Some c \<and> fetch_outcome E c = Some ts \<longrightarrow>
        load_tools E n h =
          (ts, h\<lparr>connections := AList.update n (c\<lparr>tools := Some ts\<rparr>) (connections h),
                 trace := trace h @ [fetch_event c]\<rparr>))
   \<and> (\<forall>c. map_of (connections h) n = Some c \<and> fetch_outcome E c = None \<longrightarrow>
        load_tools E n h = (JList [], h\<lparr>trace := trace h @ [fetch_event c]\<rparr>))"
  using load_tools_missing load_tools_fetched load_tools_not_fetched by blast

text \<open>
  The three cases of C6 at concrete hubs.
\<close>

theorem load_tools_always_fetches_witness:
  "load_tools serving_env ''nobody'' McpHub_init = (JList [], McpHub_init)
   \<and> fst (load_tools serving_env ''srv'' hub_with_session) = JList [JStr ''transfer'']
   \<and> load_tools refusing_env ''srv'' hub_with_session =
       (JList [], hub_with_session\<lparr>trace := trace hub_with_session @ [ListTools 7]\<rparr>)"
proof -
  let ?c = "\<lparr>transport = Stdio, session = 7, client = ''1.0.0'', config = stdio_cfg,
        tools = Some (JList [JStr ''cached'']), status = ''connected'', error = None\<rparr>"
  have a: "map_of (connections McpHub_init) ''nobody'' = None"
    by (simp add: McpHub_init_def)
  have b: "map_of (connections hub_with_session) ''srv'' = Some ?c"
    by (simp add: hub_with_session_def)
  have c: "fetch_outcome serving_env ?c = Some (JList [JStr ''transfer''])"
    by (simp add: fetch_outcome_def serving_env_def)
  have d: "fetch_outcome refusing_env ?c = None"
    by (simp add: fetch_outcome_def refusing_env_def)
  have e: "fetch_event ?c = ListTools 7"
    by (simp add: fetch_event_def)
  show ?thesis
    using load_tools_always_fetches[of McpHub_init "''nobody''" serving_env]
      load_tools_always_fetches[of hub_with_session "''srv''" serving_env]
      load_tools_always_fetches[of hub_with_session "''srv''" refusing_env]
      a b c d e
    by simp
qed

text \<open>
  C6 as stated fails: the session for "srv" holds a cached tool list, and
  \<open>load_tools\<close> still asks the session for its tools and returns the fetched list, not
  the cached one.
\<close>

theorem load_tools_cached_counterexample:
  "map_option tools (map_of (connections hub_with_session) ''srv'') = Some (Some (JList [JStr ''cached'']))
   \<and> fst (load_tools serving_env ''srv'' hub_with_session) = JList [JStr ''transfer'']
   \<and> trace (snd (load_tools serving_env ''srv'' hub_with_session)) = [ListTools 7]"
  by (simp add: load_tools_def hub_with_session_def serving_env_def McpHub_init_def set_tools_def log_def)

lemma mark_disconnected_absent:
  "map_of (connections h) name = None \<Longrightarrow> mark_disconnected name m h = h"
  by (simp add: mark_disconnected_def)

lemma attempts_made_log:
  "attempts_made (log ev h) = attempts_made h + (if is_connect_attempt ev then 1 else 0)"
  by (simp add: attempts_made_def log_def)

lemma attempts_made_remove_existing: "attempts_made (remove_existing name h) = attempts_made h"
  by (simp add: attempts_made_def trace_remove_existing)

lemma handle_error_absent:
  assumes "map_of (connections h) name = None"
  shows "handle_error name retries a e h =
           (if a > retries then Return False h else Retry (log (Sleep 1) h))"
  using assms by (cases e) (simp_all add: handle_error_def mark_disconnected_absent)

lemma connect_attempt_fails:
  assumes "attempt_fails E cfg (nat a)"
  shows "\<exists>h1. map_of (connections h1) name = None \<and> attempts_made h1 = attempts_made h + 1
           \<and> connect_attempt E name cfg retries a h =
               (if a > retries then Return False h1 else Retry h1)"
proof -
  have abs: "\<And>ev. map_of (connections (log ev (remove_existing name h))) name = None"
    by (simp add: connections_log remove_existing_absent)
  consider (stdio) "transportType cfg = Some ''stdio''"
    | (sse) "transportType cfg \<noteq> Some ''stdio''" "transportType cfg = Some ''sse''"
    using assms by (auto simp: attempt_fails_def split: if_splits)
  then show ?thesis
  proof cases
    case stdio
    with assms obtain e where e: "stdio_connect E (nat a) = Inl e"
      by (auto simp: attempt_fails_def isl_def)
    let ?h0 = "log (StdioConnect name) (remove_existing name h)"
    let ?h1 = "if a > retries then ?h0 else log (Sleep 1) ?h0"
    have "connect_attempt E name cfg retries a h = handle_error name retries a e ?h0"
      using stdio e by (simp add: connect_attempt_def)
    then show ?thesis
      using abs[of "StdioConnect name"]
      by (intro exI[of _ ?h1])
         (simp add: handle_error_absent attempts_made_log attempts_made_remove_existing
            connections_log)
  next
    case sse
    let ?c = "HttpSessionClose (http_session E (nat a))"
    let ?g = "log (HttpGet (url cfg)) (remove_existing name h)"
    have absc: "map_of (connections (log ?c ?g)) name = None"
      using abs[of "HttpGet (url cfg)"] by (simp add: connections_log)
    show ?thesis
    proof (cases "http_get E (nat a) (url cfg)")
      case (Inl e)
      let ?h1 = "if a > retries then log ?c ?g else log (Sleep 1) (log ?c ?g)"
      have "connect_attempt E name cfg retries a h = handle_error name retries a e (log ?c ?g)"
        using sse Inl by (simp add: connect_attempt_def)
      then show ?thesis
        using absc
        by (intro exI[of _ ?h1])
           (simp add: handle_error_absent attempts_made_log attempts_made_remove_existing
              connections_log)
    next
      case (Inr response)
      with assms sse have ne: "status_code response \<noteq> 200"
        by (simp add: attempt_fails_def)
      let ?h1 = "if a > retries then log ?c ?g else log ?c (log (Sleep 1) ?g)"
      have "connect_attempt E name cfg retries a h =
              (if a > retries then Return False ?h1 else Retry ?h1)"
        using sse Inr ne by (simp add: connect_attempt_def)
      then show ?thesis
        using abs[of "HttpGet (url cfg)"]
        by (intro exI[of _ ?h1])
           (simp add: attempts_made_log attempts_made_remove_existing connections_log)
    qed
  qed
qed

text \<open>
  When every attempt fails, the loop entered with \<open>attempt \<le> retries\<close> makes
  \<open>retries - attempt + 1\<close> attempts, returns false, and leaves no entry for the name.
\<close>

lemma connect_loop_all_fail:
  assumes "\<forall>n. attempt_fails E cfg n" "attempt \<le> retries"
  shows "fst (connect_loop E name cfg retries attempt h) = Some False
     \<and> map_of (connections (snd (connect_loop E name cfg retries attempt h))) name = None
     \<and> attempts_made (snd (connect_loop E name cfg retries attempt h)) =
         attempts_made h + nat (retries - attempt) + 1"
  using assms
proof (induction E name cfg retries attempt h rule: connect_loop.induct)
  case (1 E name cfg retries attempt h)
  from "1.prems" have f: "attempt_fails E cfg (nat (attempt + 1))" by simp
  from connect_attempt_fails[OF f, of name h retries] obtain h1 where
    h1: "map_of (connections h1) name = None" "attempts_made h1 = attempts_made h + 1"
      "connect_attempt E name cfg retries (attempt + 1) h =
         (if attempt + 1 > retries then Return False h1 else Retry h1)"
    by blast
  show ?case
  proof (cases "attempt + 1 > retries")
    case True
    have "connect_loop E name cfg retries attempt h = (Some False, h1)"
      using True h1(3) "1.prems"(2)
      by (subst connect_loop.simps) simp
    with h1 True "1.prems"(2) show ?thesis by simp
  next
    case False
    with h1 have r: "connect_attempt E name cfg retries (attempt + 1) h = Retry h1"
      by simp
    from False have le: "attempt + 1 \<le> retries" by simp
    have eq: "connect_loop E name cfg retries attempt h =
        connect_loop E name cfg retries (attempt + 1) h1"
      using r "1.prems" by (simp add: connect_loop.simps[of E name cfg retries attempt h])
    from "1.IH"[OF "1.prems"(2) r "1.prems"(1) le] h1 le show ?thesis
      by (simp add: eq nat_diff_distrib nat_add_distrib)
  qed
qed

lemma connect_to_server_all_fail:
  assumes "\<forall>n. attempt_fails E cfg n" "1 \<le> r"
  shows "fst (connect_to_server E name cfg timeout (Some r) h) = Some False
     \<and> map_of (connections (snd (connect_to_server E name cfg timeout (Some r) h))) name = None
     \<and> attempts_made (snd (connect_to_server E name cfg timeout (Some r) h)) =
         attempts_made h + nat r + 1"
  using connect_loop_all_fail[OF assms(1), of 0 r name h] assms(2)
  by (simp add: connect_to_server_def py_or_def)

text \<open>
  C1, evaluated. Every attempt to connect "srv" raises. With \<open>retries = 1\<close> the call
  makes two attempts and returns false, and afterwards the registry holds no entry for
  "srv" at all: the session that was there has been deleted, so no status and no error
  text are recorded anywhere. With \<open>retries = 0\<close> the call makes three attempts, since
  \<open>0 or self.connection_retries\<close> is the default 2.
\<close>

theorem connect_to_server_exhausted_records_nothing:
  "connect_to_server refusing_env ''srv'' stdio_cfg None (Some 1) hub_with_session =
     (Some False, McpHub_init\<lparr>trace := [StdioConnect ''srv'', Sleep 1, StdioConnect ''srv'']\<rparr>)
   \<and> map_of (connections (snd (connect_to_server refusing_env ''srv'' stdio_cfg None (Some 1)
         hub_with_session))) ''srv'' = None
   \<and> connect_to_server refusing_env ''srv'' stdio_cfg None (Some 0) McpHub_init =
     (Some False, McpHub_init\<lparr>trace := [StdioConnect ''srv'', Sleep 1, StdioConnect ''srv'',
        Sleep 1, StdioConnect ''srv'']\<rparr>)"
  by (simp add: connect_to_server_def py_or_def connect_loop.simps connect_attempt_def
      refusing_env_def stdio_cfg_def hub_with_session_def McpHub_init_def handle_error_def
      remove_existing_def mark_disconnected_def log_def)

text \<open>
  The HTTP path, evaluated: a successful connect stores the HTTP session it opened and
  closes that same session when it returns.
\<close>

lemma sse_connect_closes_its_session:
  "fst (connect_to_server serving_env ''web'' sse_cfg None None McpHub_init) = Some True
   \<and> trace (snd (connect_to_server serving_env ''web'' sse_cfg None None McpHub_init)) =
        [HttpGet ''http://localhost:8080'', HttpGet ''http://localhost:8080/tools/list'',
         HttpSessionClose 201]"
  by (simp add: connect_to_server_def py_or_def connect_loop.simps connect_attempt_def
      serving_env_def sse_cfg_def McpHub_init_def
      remove_existing_def store_def load_tools_bounded_def load_tools_def set_tools_def log_def)

text \<open>
  C2, as the code has it. When \<open>connect_to_server\<close> returns true for a name that was
  registered, the registry holds exactly one entry for the name and its status is
  "connected"; and the handle of the session that was registered before has received
  no close request from the call: the close requests that reach it are those that were
  on the trace before. The old entry is only deleted from the registry. (A session the
  call opens itself is a new object, so its handle is not the old one.)
\<close>

theorem reconnect_replaces_entry_without_close:
  assumes "fst (connect_to_server E name cfg timeout retries h) = Some True"
    and "map_of (connections h) name = Some c"
    and "\<forall>n. http_session E n \<noteq> session c"
  shows "count_list (map fst (connections (snd (connect_to_server E name cfg timeout retries h)))) name = 1
     \<and> map_option status (map_of (connections (snd (connect_to_server E name cfg timeout retries h))) name)
         = Some ''connected''
     \<and> filter (closes (session c)) (trace (snd (connect_to_server E name cfg timeout retries h))) =
         filter (closes (session c)) (trace h)"
proof -
  obtain h' where "connect_loop E name cfg (py_or retries (connection_retries h)) 0 h = (Some True, h')"
    using assms(1) by (cases "connect_loop E name cfg (py_or retries (connection_retries h)) 0 h")
      (simp add: connect_to_server_def)
  with connect_loop_True[OF this]
    connect_loop_closes[OF assms(3), of name cfg "py_or retries (connection_retries h)" 0 h]
  show ?thesis by (simp add: connect_to_server_def)
qed

text \<open>
  C2 at a concrete hub: "srv" is registered with session 7, and connecting it again
  succeeds.
\<close>

theorem reconnect_replaces_entry_without_close_witness:
  "fst (connect_to_server serving_env ''srv'' stdio_cfg None None hub_with_session) = Some True
   \<and> map_option session (map_of (connections hub_with_session) ''srv'') = Some 7
   \<and> (\<forall>n. http_session serving_env n \<noteq> 7)
   \<and> count_list (map fst (connections (snd (connect_to_server serving_env ''srv'' stdio_cfg None None
        hub_with_session)))) ''srv'' = 1
   \<and> filter (closes 7) (trace (snd (connect_to_server serving_env ''srv'' stdio_cfg None None
        hub_with_session))) = []"
proof -
  let ?c = "\<lparr>transport = Stdio, session = 7, client = ''1.0.0'', config = stdio_cfg,
        tools = Some (JList [JStr ''cached'']), status = ''connected'', error = None\<rparr>"
  have t: "fst (connect_to_server serving_env ''srv'' stdio_cfg None None hub_with_session) = Some True"
    by (simp add: connect_to_server_def py_or_def connect_loop.simps connect_attempt_def
      serving_env_def stdio_cfg_def hub_with_session_def McpHub_init_def)
  have c: "map_of (connections hub_with_session) ''srv'' = Some ?c"
    by (simp add: hub_with_session_def)
  have d: "\<forall>n. http_session serving_env n \<noteq> session ?c"
    by (simp add: serving_env_def)
  from reconnect_replaces_entry_without_close[OF t c d] t c d show ?thesis
    by (simp add: hub_with_session_def McpHub_init_def)
qed

text \<open>
  C2 as stated fails: "srv" is registered with session 7; connecting again stores
  session 101, and the only operations started are the new connection and the listing
  of its tools. No close request has reached session 7.
\<close>

theorem reconnect_close_counterexample:
  "map_option session (map_of (connections hub_with_session) ''srv'') = Some 7
   \<and> fst (connect_to_server serving_env ''srv'' stdio_cfg None None hub_with_session) = Some True
   \<and> map_option session (map_of (connections (snd (connect_to_server serving_env ''srv'' stdio_cfg
        None None hub_with_session))) ''srv'') = Some 101
   \<and> trace (snd (connect_to_server serving_env ''srv'' stdio_cfg None None hub_with_session)) =
        [StdioConnect ''srv'', ListTools 101]
   \<and> filter (closes 7) (trace (snd (connect_to_server serving_env ''srv'' stdio_cfg None None
        hub_with_session))) = []"
  by (simp add: connect_to_server_def py_or_def connect_loop.simps connect_attempt_def
      serving_env_def stdio_cfg_def hub_with_session_def McpHub_init_def
      remove_existing_def store_def load_tools_bounded_def load_tools_def set_tools_def log_def)

section \<open>\<open>_preprocess_tool_args\<close> leaves its argument alone\<close>

lemma kept_refl: "kept n H H"
  by (simp add: kept_def)

lemma kept_trans: "kept n H H1 \<Longrightarrow> kept n H1 H2 \<Longrightarrow> kept n H H2"
  by (simp add: kept_def)

lemma kept_setitem: "n \<le> p \<Longrightarrow> kept n H (setitem p k v H)"
  by (simp add: kept_def setitem_def)

lemma kept_append: "n \<le> length H \<Longrightarrow> kept n H (H @ xs)"
  by (simp add: kept_def)

lemma kept_stringify_field: "n \<le> p \<Longrightarrow> kept n H (stringify_field pr p H field)"
  by (simp add: stringify_field_def kept_refl kept_setitem split: option.splits)

lemma kept_coerce_boolean_field: "n \<le> p \<Longrightarrow> kept n H (coerce_boolean_field p H field)"
  by (simp add: coerce_boolean_field_def kept_refl kept_setitem split: option.splits pyval.splits)

lemma kept_foldl:
  assumes "\<And>H field. kept n H (f H field)"
  shows "kept n H (foldl f H names)"
proof (induction names arbitrary: H)
  case Nil
  then show ?case by (simp add: kept_refl)
next
  case (Cons a names)
  from assms[of H a] Cons[of "f H a"] show ?case
    by (simp add: kept_trans)
qed

lemma kept_stringify_list_field:
  assumes "n \<le> p" "n \<le> length H"
  shows "kept n H (snd (stringify_list_field pr p field H))"
proof -
  have "\<And>ob v. kept n H (setitem p field v (H @ [ob]))"
    using kept_trans[OF kept_append[OF assms(2)] kept_setitem[OF assms(1)]] by blast
  then show ?thesis
    by (simp add: stringify_list_field_def alloc_def kept_refl split: option.splits sum.splits)
qed

lemma kept_length: "kept n H H' \<Longrightarrow> n \<le> length H \<Longrightarrow> n \<le> length H'"
  by (simp add: kept_def)

lemma preprocess_tool_args_kept:
  "kept (length H) H (snd (preprocess_tool_args pr tool_name args H))"
proof (cases "case args of VRef a \<Rightarrow> heap_get H a | _ \<Rightarrow> None")
  case None
  then show ?thesis by (simp add: preprocess_tool_args_def kept_refl)
next
  case (Some ob)
  let ?n = "length H"
  show ?thesis
  proof (cases ob)
    case (OList xs)
    with Some show ?thesis
      by (simp add: preprocess_tool_args_def alloc_def kept_append)
  next
    case (ODict d)
    let ?H1 = "H @ [ODict d]"
    have k1: "kept ?n H ?H1" by (simp add: kept_append)
    have sf: "\<And>X field. kept ?n X (stringify_field pr ?n X field)"
      by (simp add: kept_stringify_field)
    have cb: "\<And>X field. kept ?n X (coerce_boolean_field ?n X field)"
      by (simp add: kept_coerce_boolean_field)
    consider (cs) "tool_name = ''create-stream''"
      | (bcs) "tool_name \<noteq> ''create-stream''" "tool_name = ''batch-create-streams''"
      | (other) "tool_name \<noteq> ''create-stream''" "tool_name \<noteq> ''batch-create-streams''"
      by blast
    then show ?thesis
    proof cases
      case cs
      have "kept ?n ?H1 (foldl (coerce_boolean_field ?n)
          (foldl (stringify_field pr ?n) ?H1 numeric_fields) boolean_fields)"
        using kept_trans[OF kept_foldl[of ?n "stringify_field pr ?n" ?H1 numeric_fields, OF sf]
            kept_foldl[of ?n "coerce_boolean_field ?n" _ boolean_fields, OF cb]] .
      with k1 cs Some ODict show ?thesis
        by (simp add: preprocess_tool_args_def alloc_def kept_trans)
    next
      case bcs
      obtain r2 H2 where s2: "stringify_list_field pr ?n ''depositAmounts'' ?H1 = (r2, H2)"
        by (cases "stringify_list_field pr ?n ''depositAmounts'' ?H1")
      obtain r3 H3 where s3: "stringify_list_field pr ?n ''cliffAmounts'' H2 = (r3, H3)"
        by (cases "stringify_list_field pr ?n ''cliffAmounts'' H2")
      have k2: "kept ?n ?H1 H2"
        using kept_stringify_list_field[of ?n ?n ?H1 pr "''depositAmounts''"] s2 by simp
      then have l2: "?n \<le> length H2" by (simp add: kept_def)
      have k3: "kept ?n H2 H3"
        using kept_stringify_list_field[of ?n ?n H2 pr "''cliffAmounts''"] s3 l2 by simp
      have k4: "kept ?n H3 (foldl (stringify_field pr ?n) H3 single_numeric_fields)"
        using kept_foldl[of ?n "stringify_field pr ?n" H3 single_numeric_fields, OF sf] .
      have a2: "kept ?n H H2" using k1 k2 by (rule kept_trans)
      have a3: "kept ?n H H3" using a2 k3 by (rule kept_trans)
      have a4: "kept ?n H (foldl (stringify_field pr ?n) H3 single_numeric_fields)"
        using a3 k4 by (rule kept_trans)
      show ?thesis
        using bcs Some ODict s2 s3 a2 a3 a4
        by (simp add: preprocess_tool_args_def alloc_def split: option.splits)
    next
      case other
      with k1 Some ODict show ?thesis
        by (simp add: preprocess_tool_args_def alloc_def)
    qed
  qed
qed

lemma preprocess_tool_args_result:
  "(\<exists>e. fst (preprocess_tool_args pr tool_name args H) = Inl e)
   \<or> fst (preprocess_tool_args pr tool_name args H) = Inr (VRef (length H))"
  by (auto simp: preprocess_tool_args_def alloc_def split: option.splits pyobj.splits prod.splits)

text \<open>
  C9. For every tool name, every argument value and every store, the objects that
  existed before \<open>_preprocess_tool_args\<close> ran are unchanged after it, whether it
  returns or raises: the caller's mapping and the lists it refers to are what they were.
  What it returns is a new object, the copy it made.
\<close>

theorem preprocess_tool_args_leaves_store:
  "take (length H) (snd (preprocess_tool_args pr tool_name args H)) = H
   \<and> ((\<exists>e. fst (preprocess_tool_args pr tool_name args H) = Inl e)
      \<or> fst (preprocess_tool_args pr tool_name args H) = Inr (VRef (length H)))"
  using preprocess_tool_args_kept[of H pr tool_name args]
    preprocess_tool_args_result[of pr tool_name args H]
  by (simp add: kept_def)

section \<open>The dispatcher loops\<close>

lemma annotates_call: "annotates D tool_name (call_and_annotate D j tool_name H p)"
  by (auto simp: annotates_def)

lemma process_tool_calls_result:
  "process_tool_calls D i tcs st = Inr st' \<Longrightarrow>
     called st' = called st @ map tc_name tcs
     \<and> (\<exists>anns. final_text st' = final_text st @ anns
           \<and> list_all2 (\<lambda>tc a. annotates D (tc_name tc) a) tcs anns)"
proof (induction tcs arbitrary: i st)
  case Nil
  then show ?case by simp
next
  case (Cons tc tcs)
  obtain r1 H1 where j: "json_loads D (tc_arguments tc) (objects st) = (r1, H1)"
    by (cases "json_loads D (tc_arguments tc) (objects st)")
  with Cons.prems obtain tool_args where r1: "r1 = Inr tool_args"
    by (cases r1) simp_all
  obtain r2 H2 where p: "preprocess_tool_args (printer D) (tc_name tc) tool_args H1 = (r2, H2)"
    by (cases "preprocess_tool_args (printer D) (tc_name tc) tool_args H1")
  with Cons.prems j r1 obtain processed_args where r2: "r2 = Inr processed_args"
    by (cases r2) simp_all
  let ?a = "call_and_annotate D i (tc_name tc) H2 processed_args"
  let ?st = "\<lparr>objects = H2, final_text = final_text st @ [?a], called = called st @ [tc_name tc]\<rparr>"
  from Cons.prems j r1 p r2 have "process_tool_calls D (i + 1) tcs ?st = Inr st'" by simp
  from Cons.IH[OF this] obtain anns where
    c: "called st' = called ?st @ map tc_name tcs" and
    f: "final_text st' = final_text ?st @ anns" and
    l: "list_all2 (\<lambda>tc a. annotates D (tc_name tc) a) tcs anns" by blast
  have "list_all2 (\<lambda>tc a. annotates D (tc_name tc) a) (tc # tcs) (?a # anns)"
    using l by (simp add: annotates_call)
  moreover have "final_text st' = final_text st @ (?a # anns)" using f by simp
  ultimately show ?case using c by auto
qed

lemma process_tool_calls_exact:
  "arguments_accepted D tcs (objects st) \<Longrightarrow>
     \<exists>H'. process_tool_calls D i tcs st =
       Inr \<lparr>objects = H', final_text = final_text st @ annotations D i tcs (objects st),
            called = called st @ map tc_name tcs\<rparr>"
proof (induction tcs arbitrary: i st)
  case Nil
  show ?case by (cases st) simp
next
  case (Cons tc tcs)
  obtain r1 H1 where j: "json_loads D (tc_arguments tc) (objects st) = (r1, H1)"
    by (cases "json_loads D (tc_arguments tc) (objects st)")
  with Cons.prems obtain tool_args where r1: "r1 = Inr tool_args"
    by (cases r1) simp_all
  obtain r2 H2 where p: "preprocess_tool_args (printer D) (tc_name tc) tool_args H1 = (r2, H2)"
    by (cases "preprocess_tool_args (printer D) (tc_name tc) tool_args H1")
  with Cons.prems j r1 obtain processed_args where r2: "r2 = Inr processed_args"
    by (cases r2) simp_all
  let ?st = "\<lparr>objects = H2,
     final_text = final_text st @ [call_and_annotate D i (tc_name tc) H2 processed_args],
     called = called st @ [tc_name tc]\<rparr>"
  from Cons.prems j r1 p r2 have "arguments_accepted D tcs (objects ?st)" by simp
  from Cons.IH[OF this, of "i + 1"] obtain H' where
    "process_tool_calls D (i + 1) tcs ?st =
       Inr \<lparr>objects = H', final_text = final_text ?st @ annotations D (i + 1) tcs (objects ?st),
            called = called ?st @ map tc_name tcs\<rparr>" by blast
  with j r1 p r2 show ?case by simp
qed

lemma length_annotations:
  "arguments_accepted D tcs H \<Longrightarrow> length (annotations D i tcs H) = length tcs"
proof (induction tcs arbitrary: i H)
  case Nil
  then show ?case by simp
next
  case (Cons tc tcs)
  obtain r1 H1 where j: "json_loads D (tc_arguments tc) H = (r1, H1)"
    by (cases "json_loads D (tc_arguments tc) H")
  with Cons.prems obtain tool_args where r1: "r1 = Inr tool_args"
    by (cases r1) simp_all
  obtain r2 H2 where p: "preprocess_tool_args (printer D) (tc_name tc) tool_args H1 = (r2, H2)"
    by (cases "preprocess_tool_args (printer D) (tc_name tc) tool_args H1")
  with Cons.prems j r1 obtain processed_args where r2: "r2 = Inr processed_args"
    by (cases r2) simp_all
  from Cons.prems j r1 p r2 have "arguments_accepted D tcs H2" by simp
  from Cons.IH[OF this, of "i + 1"] j r1 p r2 show ?case by simp
qed

lemma process_tool_calls_raises_iff:
  "isl (process_tool_calls D i tcs st) = (\<not> arguments_accepted D tcs (objects st))"
proof (induction tcs arbitrary: i st)
  case Nil
  then show ?case by simp
next
  case (Cons tc tcs)
  obtain r1 H1 where j: "json_loads D (tc_arguments tc) (objects st) = (r1, H1)"
    by (cases "json_loads D (tc_arguments tc) (objects st)")
  show ?case
  proof (cases r1)
    case (Inl e)
    with j show ?thesis by simp
  next
    case (Inr tool_args)
    obtain r2 H2 where p: "preprocess_tool_args (printer D) (tc_name tc) tool_args H1 = (r2, H2)"
      by (cases "preprocess_tool_args (printer D) (tc_name tc) tool_args H1")
    show ?thesis
    proof (cases r2)
      case (Inl e)
      with j Inr p show ?thesis by simp
    next
      case r2: (Inr processed_args)
      let ?st = "\<lparr>objects = H2,
        final_text = final_text st @ [call_and_annotate D i (tc_name tc) H2 processed_args],
        called = called st @ [tc_name tc]\<rparr>"
      from Cons.IH[of "i + 1" ?st] j Inr p r2 show ?thesis by simp
    qed
  qed
qed

lemma arguments_accepted_any_calls:
  "arguments_accepted (D\<lparr>session_call := c\<rparr>) tcs H = arguments_accepted D tcs H"
  by (induction tcs arbitrary: H) (auto split: prod.splits sum.splits)

lemma process_blocks_exact:
  "inputs_accepted D bs (objects st) \<Longrightarrow>
     \<exists>H'. process_blocks D i bs st =
       Inr \<lparr>objects = H', final_text = final_text st @ block_texts D i bs (objects st),
            called = called st @ tool_uses bs\<rparr>"
proof (induction bs arbitrary: i st)
  case Nil
  show ?case by (cases st) simp
next
  case (Cons b bs)
  show ?case
  proof (cases b)
    case (TextBlock t)
    let ?st = "st\<lparr>final_text := final_text st @ [t]\<rparr>"
    from Cons.prems TextBlock have "inputs_accepted D bs (objects ?st)" by simp
    from Cons.IH[OF this, of i] TextBlock show ?thesis by simp
  next
    case (ToolUse tool_name tool_args)
    obtain r2 H2 where
      p: "preprocess_tool_args (printer D) tool_name tool_args (objects st) = (r2, H2)"
      by (cases "preprocess_tool_args (printer D) tool_name tool_args (objects st)")
    with Cons.prems ToolUse obtain processed_args where r2: "r2 = Inr processed_args"
      by (cases r2) simp_all
    let ?st = "\<lparr>objects = H2,
      final_text = final_text st @ [call_and_annotate D i tool_name H2 processed_args],
      called = called st @ [tool_name]\<rparr>"
    from Cons.prems ToolUse p r2 have "inputs_accepted D bs (objects ?st)" by simp
    from Cons.IH[OF this, of "i + 1"] ToolUse p r2 show ?thesis by simp
  next
    case (OtherBlock ty)
    with Cons.prems have "inputs_accepted D bs (objects st)" by simp
    from Cons.IH[OF this, of i] OtherBlock show ?thesis by simp
  qed
qed

lemma process_blocks_raises_iff:
  "isl (process_blocks D i bs st) = (\<not> inputs_accepted D bs (objects st))"
proof (induction bs arbitrary: i st)
  case Nil
  then show ?case by simp
next
  case (Cons b bs)
  show ?case
  proof (cases b)
    case (TextBlock t)
    with Cons.IH[of i "st\<lparr>final_text := final_text st @ [t]\<rparr>"] show ?thesis by simp
  next
    case (ToolUse tool_name tool_args)
    obtain r2 H2 where
      p: "preprocess_tool_args (printer D) tool_name tool_args (objects st) = (r2, H2)"
      by (cases "preprocess_tool_args (printer D) tool_name tool_args (objects st)")
    show ?thesis
    proof (cases r2)
      case (Inl e)
      with ToolUse p show ?thesis by simp
    next
      case (Inr processed_args)
      let ?st = "\<lparr>objects = H2,
        final_text = final_text st @ [call_and_annotate D i tool_name H2 processed_args],
        called = called st @ [tool_name]\<rparr>"
      from Cons.IH[of "i + 1" ?st] ToolUse p Inr show ?thesis by simp
    qed
  next
    case (OtherBlock ty)
    with Cons.IH[of i st] show ?thesis by simp
  qed
qed

lemma inputs_accepted_any_calls:
  "inputs_accepted (D\<lparr>session_call := c\<rparr>) bs H = inputs_accepted D bs H"
proof (induction bs arbitrary: H)
  case Nil
  then show ?case by simp
next
  case (Cons b bs)
  then show ?case by (cases b) (auto split: prod.splits sum.splits)
qed

lemma openai_raises_iff:
  "isl (process_response_openai D \<lparr>choices = m # others\<rparr> server_name (Some s) H)
     = (\<not> arguments_accepted D (tool_calls m) H)"
  using process_tool_calls_raises_iff[of D 0 "tool_calls m"
      "\<lparr>objects = H, final_text = content_list m, called = []\<rparr>"]
  by (cases "process_tool_calls D 0 (tool_calls m)
        \<lparr>objects = H, final_text = content_list m, called = []\<rparr>")
     (simp_all add: process_response_openai_def dispatch_openai_def)

lemma anthropic_raises_iff:
  "isl (process_response_anthropic D blocks server_name (Some s) H)
     = (\<not> inputs_accepted D blocks H)"
  using process_blocks_raises_iff[of D 0 blocks "\<lparr>objects = H, final_text = [], called = []\<rparr>"]
  by (cases "process_blocks D 0 blocks \<lparr>objects = H, final_text = [], called = []\<rparr>")
     (simp_all add: process_response_anthropic_def)

lemma openai_step_raises:
  assumes "json_loads D (tc_arguments tc) (objects st) = (Inr tool_args, H1)"
    "preprocess_tool_args (printer D) (tc_name tc) tool_args H1 = (Inr processed_args, H2)"
    "session_call D i (tc_name tc) H2 processed_args = Inl e"
  shows "process_tool_calls D i (tc # tcs) st =
     process_tool_calls D (i + 1) tcs
       \<lparr>objects = H2, final_text = final_text st @ [error_marker (tc_name tc) (str_error e)],
        called = called st @ [tc_name tc]\<rparr>"
  using assms by (simp add: call_and_annotate_def)

lemma anthropic_step_raises:
  assumes "preprocess_tool_args (printer D) tool_name tool_args (objects st) = (Inr processed_args, H2)"
    "session_call D i tool_name H2 processed_args = Inl e"
  shows "process_blocks D i (ToolUse tool_name tool_args # bs) st =
     process_blocks D (i + 1) bs
       \<lparr>objects = H2, final_text = final_text st @ [error_marker tool_name (str_error e)],
        called = called st @ [tool_name]\<rparr>"
  using assms by (simp add: call_and_annotate_def)

lemma openai_exact:
  assumes "arguments_accepted D (tool_calls m) H"
  shows "process_response_openai D \<lparr>choices = m # others\<rparr> server_name (Some s) H
       = Inr (final_answer (content_list m @ annotations D 0 (tool_calls m) H))
     \<and> length (annotations D 0 (tool_calls m) H) = length (tool_calls m)"
proof -
  let ?st0 = "\<lparr>objects = H, final_text = content_list m, called = []\<rparr>"
  from assms have "arguments_accepted D (tool_calls m) (objects ?st0)" by simp
  from process_tool_calls_exact[OF this, of 0] obtain H' where
    "process_tool_calls D 0 (tool_calls m) ?st0 =
       Inr \<lparr>objects = H', final_text = final_text ?st0 @ annotations D 0 (tool_calls m) (objects ?st0),
            called = called ?st0 @ map tc_name (tool_calls m)\<rparr>" by blast
  then show ?thesis
    using length_annotations[OF assms, of 0]
    by (simp add: process_response_openai_def dispatch_openai_def)
qed

lemma anthropic_exact:
  assumes "inputs_accepted D blocks H"
  shows "process_response_anthropic D blocks server_name (Some s) H
       = Inr (final_answer (block_texts D 0 blocks H))"
proof -
  let ?st0 = "\<lparr>objects = H, final_text = [], called = []\<rparr>"
  from assms have "inputs_accepted D blocks (objects ?st0)" by simp
  from process_blocks_exact[OF this, of 0] obtain H' where
    "process_blocks D 0 blocks ?st0 =
       Inr \<lparr>objects = H', final_text = final_text ?st0 @ block_texts D 0 blocks (objects ?st0),
            called = called ?st0 @ tool_uses blocks\<rparr>" by blast
  then show ?thesis by (simp add: process_response_anthropic_def)
qed

lemma openai_raises_any_calls:
  "isl (process_response_openai (D\<lparr>session_call := c\<rparr>) response server_name sess H)
     = isl (process_response_openai D response server_name sess H)"
proof (cases sess)
  case None
  then show ?thesis by (simp add: process_response_openai_def)
next
  case (Some s)
  show ?thesis
  proof (cases "choices response")
    case Nil
    with Some show ?thesis by (simp add: process_response_openai_def dispatch_openai_def)
  next
    case (Cons m others)
    then have r: "response = \<lparr>choices = m # others\<rparr>" by (cases response) simp
    show ?thesis
      unfolding Some r openai_raises_iff by (simp add: arguments_accepted_any_calls)
  qed
qed

lemma anthropic_raises_any_calls:
  "isl (process_response_anthropic (D\<lparr>session_call := c\<rparr>) blocks server_name sess H)
     = isl (process_response_anthropic D blocks server_name sess H)"
proof (cases sess)
  case None
  then show ?thesis by (simp add: process_response_anthropic_def)
next
  case (Some s)
  show ?thesis
    unfolding Some anthropic_raises_iff by (simp add: inputs_accepted_any_calls)
qed

text \<open>
  C7. A tool call that raises never ends \<open>process_response\<close>, in either service.

  \<^item> One turn of the loop: when the call of an invocation raises \<open>e\<close>, the loop appends the
    error marker with the name of the tool and the text of \<open>e\<close> to the response text,
    and goes on with the remaining invocations.
  \<^item> Whether \<open>process_response\<close> raises does not depend on what the tool calls do:
    replacing the session's \<open>call_tool\<close> by any other, raising or not, changes nothing
    to it.
  \<^item> The whole run: when the arguments of the invocations decode and preprocess,
    \<open>process_response\<close> returns the joined text of the content and of one annotation
    for every invocation, in order, each the annotation of the call made for it.
\<close>

theorem tool_failure_never_aborts:
  "(json_loads D (tc_arguments tc) (objects st) = (Inr tool_args, H1)
      \<and> preprocess_tool_args (printer D) (tc_name tc) tool_args H1 = (Inr processed_args, H2)
      \<and> session_call D i (tc_name tc) H2 processed_args = Inl e
    \<longrightarrow> process_tool_calls D i (tc # tcs) st =
          process_tool_calls D (i + 1) tcs
            \<lparr>objects = H2,
             final_text = final_text st @ [error_marker (tc_name tc) (str_error e)],
             called = called st @ [tc_name tc]\<rparr>)
   \<and> (preprocess_tool_args (printer D) tool_name block_input (objects st') = (Inr processed_args', H2')
      \<and> session_call D i' tool_name H2' processed_args' = Inl e'
    \<longrightarrow> process_blocks D i' (ToolUse tool_name block_input # bs) st' =
          process_blocks D (i' + 1) bs
            \<lparr>objects = H2',
             final_text = final_text st' @ [error_marker tool_name (str_error e')],
             called = called st' @ [tool_name]\<rparr>)
   \<and> isl (process_response_openai (D\<lparr>session_call := c\<rparr>) response server_name sess H)
       = isl (process_response_openai D response server_name sess H)
   \<and> isl (process_response_anthropic (D\<lparr>session_call := c\<rparr>) blocks server_name sess H')
       = isl (process_response_anthropic D blocks server_name sess H')
   \<and> (arguments_accepted D (tool_calls m) H \<longrightarrow>
        process_response_openai D \<lparr>choices = m # others\<rparr> server_name (Some s) H
          = Inr (final_answer (content_list m @ annotations D 0 (tool_calls m) H))
        \<and> length (annotations D 0 (tool_calls m) H) = length (tool_calls m))
   \<and> (inputs_accepted D blocks H' \<longrightarrow>
        process_response_anthropic D blocks server_name (Some s) H'
          = Inr (final_answer (block_texts D 0 blocks H')))"
proof (intro conjI impI)
  assume "json_loads D (tc_arguments tc) (objects st) = (Inr tool_args, H1)
      \<and> preprocess_tool_args (printer D) (tc_name tc) tool_args H1 = (Inr processed_args, H2)
      \<and> session_call D i (tc_name tc) H2 processed_args = Inl e"
  then show "process_tool_calls D i (tc # tcs) st =
          process_tool_calls D (i + 1) tcs
            \<lparr>objects = H2,
             final_text = final_text st @ [error_marker (tc_name tc) (str_error e)],
             called = called st @ [tc_name tc]\<rparr>"
    using openai_step_raises[of D tc st tool_args H1 processed_args H2 i e tcs] by simp
next
  assume "preprocess_tool_args (printer D) tool_name block_input (objects st') = (Inr processed_args', H2')
      \<and> session_call D i' tool_name H2' processed_args' = Inl e'"
  then show "process_blocks D i' (ToolUse tool_name block_input # bs) st' =
          process_blocks D (i' + 1) bs
            \<lparr>objects = H2',
             final_text = final_text st' @ [error_marker tool_name (str_error e')],
             called = called st' @ [tool_name]\<rparr>"
    using anthropic_step_raises[of D tool_name block_input st' processed_args' H2' i' e' bs]
    by simp
next
  show "isl (process_response_openai (D\<lparr>session_call := c\<rparr>) response server_name sess H)
       = isl (process_response_openai D response server_name sess H)"
    by (rule openai_raises_any_calls)
next
  show "isl (process_response_anthropic (D\<lparr>session_call := c\<rparr>) blocks server_name sess H')
       = isl (process_response_anthropic D blocks server_name sess H')"
    by (rule anthropic_raises_any_calls)
next
  assume a: "arguments_accepted D (tool_calls m) H"
  from openai_exact[OF a]
  show "process_response_openai D \<lparr>choices = m # others\<rparr> server_name (Some s) H
          = Inr (final_answer (content_list m @ annotations D 0 (tool_calls m) H))"
    by simp
  from openai_exact[OF a, of others server_name s]
  show "length (annotations D 0 (tool_calls m) H) = length (tool_calls m)" by simp
next
  assume "inputs_accepted D blocks H'"
  then show "process_response_anthropic D blocks server_name (Some s) H'
          = Inr (final_answer (block_texts D 0 blocks H'))"
    by (rule anthropic_exact)
qed

lemma preprocess_plain_dict:
  assumes "heap_get H a = Some (ODict d)" "tool_name \<noteq> ''create-stream''"
    "tool_name \<noteq> ''batch-create-streams''"
  shows "preprocess_tool_args pr tool_name (VRef a) H = (Inr (VRef (length H)), H @ [ODict d])"
  using assms by (simp add: preprocess_tool_args_def alloc_def)

lemma demo_step:
  assumes "tool_name \<noteq> ''create-stream''" "tool_name \<noteq> ''batch-create-streams''"
  shows "preprocess_tool_args (printer demo_dispatcher) tool_name (VRef (length H)) (H @ [ODict []])
     = (Inr (VRef (Suc (length H))), H @ [ODict [], ODict []])"
proof -
  have "heap_get (H @ [ODict []]) (length H) = Some (ODict [])"
    by (simp add: heap_get_def)
  from preprocess_plain_dict[OF this assms] show ?thesis by simp
qed

lemma demo_accepted:
  "arguments_accepted demo_dispatcher
     [\<lparr>tc_name = ''a'', tc_arguments = ''{}''\<rparr>, \<lparr>tc_name = ''b'', tc_arguments = ''{}''\<rparr>] []"
proof -
  have l: "\<And>s H. json_loads demo_dispatcher s H = (Inr (VRef (length H)), H @ [ODict []])"
    by (simp add: demo_dispatcher_def)
  have a: "preprocess_tool_args (printer demo_dispatcher) ''a'' (VRef (length ([]::heap))) ([] @ [ODict []])
     = (Inr (VRef (Suc (length ([]::heap)))), [] @ [ODict [], ODict []])"
    by (rule demo_step) simp_all
  have b: "preprocess_tool_args (printer demo_dispatcher) ''b'' (VRef (length [ODict [], ODict []]))
       ([ODict [], ODict []] @ [ODict []])
     = (Inr (VRef (Suc (length [ODict [], ODict []]))), [ODict [], ODict []] @ [ODict [], ODict []])"
    by (rule demo_step) simp_all
  from a b show ?thesis by (simp add: l)
qed

lemma demo_text:
  "process_response_openai demo_dispatcher two_calls ''srv'' (Some 1) [] =
     Inr (error_marker ''a'' ''boom'' @ [CHR 0x0A] @ ok_marker ''b'' ''done'')"
proof -
  have l: "\<And>s H. json_loads demo_dispatcher s H = (Inr (VRef (length H)), H @ [ODict []])"
    by (simp add: demo_dispatcher_def)
  have a: "preprocess_tool_args (printer demo_dispatcher) ''a'' (VRef (length ([]::heap))) ([] @ [ODict []])
     = (Inr (VRef (Suc (length ([]::heap)))), [] @ [ODict [], ODict []])"
    by (rule demo_step) simp_all
  have b: "preprocess_tool_args (printer demo_dispatcher) ''b'' (VRef (length [ODict [], ODict []]))
       ([ODict [], ODict []] @ [ODict []])
     = (Inr (VRef (Suc (length [ODict [], ODict []]))), [ODict [], ODict []] @ [ODict [], ODict []])"
    by (rule demo_step) simp_all
  have c: "\<And>H p. call_and_annotate demo_dispatcher 0 ''a'' H p = error_marker ''a'' ''boom''"
    by (simp add: call_and_annotate_def demo_dispatcher_def)
  have d: "\<And>H p. call_and_annotate demo_dispatcher (Suc 0) ''b'' H p = ok_marker ''b'' ''done''"
    by (simp add: call_and_annotate_def demo_dispatcher_def)
  from a b show ?thesis
    by (simp add: process_response_openai_def dispatch_openai_def two_calls_def content_list_def
        l c d final_answer_def)
qed

lemma demo_annotations:
  "annotations demo_dispatcher 0
     [\<lparr>tc_name = ''a'', tc_arguments = ''{}''\<rparr>, \<lparr>tc_name = ''b'', tc_arguments = ''{}''\<rparr>] []
   = [error_marker ''a'' ''boom'', ok_marker ''b'' ''done'']"
proof -
  have l: "\<And>s H. json_loads demo_dispatcher s H = (Inr (VRef (length H)), H @ [ODict []])"
    by (simp add: demo_dispatcher_def)
  have a: "preprocess_tool_args (printer demo_dispatcher) ''a'' (VRef (length ([]::heap))) ([] @ [ODict []])
     = (Inr (VRef (Suc (length ([]::heap)))), [] @ [ODict [], ODict []])"
    by (rule demo_step) simp_all
  have b: "preprocess_tool_args (printer demo_dispatcher) ''b'' (VRef (length [ODict [], ODict []]))
       ([ODict [], ODict []] @ [ODict []])
     = (Inr (VRef (Suc (length [ODict [], ODict []]))), [ODict [], ODict []] @ [ODict [], ODict []])"
    by (rule demo_step) simp_all
  have c: "\<And>H p. call_and_annotate demo_dispatcher 0 ''a'' H p = error_marker ''a'' ''boom''"
    by (simp add: call_and_annotate_def demo_dispatcher_def)
  have d: "\<And>H p. call_and_annotate demo_dispatcher (Suc 0) ''b'' H p = ok_marker ''b'' ''done''"
    by (simp add: call_and_annotate_def demo_dispatcher_def)
  from a b show ?thesis by (simp add: l c d)
qed

lemma demo_first_block:
  "preprocess_tool_args (printer demo_dispatcher) ''a'' (VRef 0) [ODict []]
     = (Inr (VRef 1), [ODict [], ODict []])"
proof -
  have g: "heap_get [ODict []] 0 = Some (ODict [])" by (simp add: heap_get_def)
  from preprocess_plain_dict[OF g, of "''a''" "printer demo_dispatcher"] show ?thesis by simp
qed

lemma demo_second_block:
  "preprocess_tool_args (printer demo_dispatcher) ''b'' (VRef 0) [ODict [], ODict []]
     = (Inr (VRef 2), [ODict [], ODict [], ODict []])"
proof -
  have g: "heap_get [ODict [], ODict []] 0 = Some (ODict [])" by (simp add: heap_get_def)
  from preprocess_plain_dict[OF g, of "''b''" "printer demo_dispatcher"] show ?thesis by simp
qed

lemma demo_inputs_accepted: "inputs_accepted demo_dispatcher three_blocks [ODict []]"
  by (simp add: three_blocks_def demo_first_block demo_second_block)

lemma demo_block_texts:
  "block_texts demo_dispatcher 0 three_blocks [ODict []]
     = [''hello'', error_marker ''a'' ''boom'', ok_marker ''b'' ''done'']"
proof -
  have c: "\<And>H p. call_and_annotate demo_dispatcher 0 ''a'' H p = error_marker ''a'' ''boom''"
    by (simp add: call_and_annotate_def demo_dispatcher_def)
  have d: "\<And>H p. call_and_annotate demo_dispatcher (Suc 0) ''b'' H p = ok_marker ''b'' ''done''"
    by (simp add: call_and_annotate_def demo_dispatcher_def)
  show ?thesis
    by (simp add: three_blocks_def demo_first_block demo_second_block c d)
qed

text \<open>
  C7 at two concrete responses, one for each service. Tool "a" raises and tool "b"
  succeeds: the loop appends the error marker of "a" and goes on with "b", and the
  returned text holds the error marker of "a" followed by the result of "b".
\<close>

theorem tool_failure_never_aborts_witness:
  "json_loads demo_dispatcher ''{}'' [] = (Inr (VRef 0), [ODict []])
   \<and> preprocess_tool_args (printer demo_dispatcher) ''a'' (VRef 0) [ODict []]
       = (Inr (VRef 1), [ODict [], ODict []])
   \<and> session_call demo_dispatcher 0 ''a'' [ODict [], ODict []] (VRef 1) = Inl (Exception ''boom'')
   \<and> process_tool_calls demo_dispatcher 0
        [\<lparr>tc_name = ''a'', tc_arguments = ''{}''\<rparr>, \<lparr>tc_name = ''b'', tc_arguments = ''{}''\<rparr>]
        \<lparr>objects = [], final_text = [], called = []\<rparr>
      = process_tool_calls demo_dispatcher 1 [\<lparr>tc_name = ''b'', tc_arguments = ''{}''\<rparr>]
          \<lparr>objects = [ODict [], ODict []], final_text = [error_marker ''a'' ''boom''],
           called = [''a'']\<rparr>
   \<and> process_blocks demo_dispatcher 0 [ToolUse ''a'' (VRef 0), ToolUse ''b'' (VRef 0)]
        \<lparr>objects = [ODict []], final_text = [''hello''], called = []\<rparr>
      = process_blocks demo_dispatcher 1 [ToolUse ''b'' (VRef 0)]
          \<lparr>objects = [ODict [], ODict []], final_text = [''hello'', error_marker ''a'' ''boom''],
           called = [''a'']\<rparr>
   \<and> arguments_accepted demo_dispatcher (tool_calls (hd (choices two_calls))) []
   \<and> process_response_openai demo_dispatcher two_calls ''srv'' (Some 1) [] =
       Inr (error_marker ''a'' ''boom'' @ [CHR 0x0A] @ ok_marker ''b'' ''done'')
   \<and> inputs_accepted demo_dispatcher three_blocks [ODict []]
   \<and> process_response_anthropic demo_dispatcher three_blocks ''srv'' (Some 1) [ODict []] =
       Inr (''hello'' @ [CHR 0x0A] @ error_marker ''a'' ''boom'' @ [CHR 0x0A]
            @ ok_marker ''b'' ''done'')"
proof -
  let ?A = "\<lparr>tc_name = ''a'', tc_arguments = ''{}''\<rparr>"
  let ?B = "\<lparr>tc_name = ''b'', tc_arguments = ''{}''\<rparr>"
  let ?m = "hd (choices two_calls)"
  have l: "json_loads demo_dispatcher ''{}'' [] = (Inr (VRef 0), [ODict []])"
    by (simp add: demo_dispatcher_def)
  have raises: "session_call demo_dispatcher 0 ''a'' [ODict [], ODict []] (VRef 1)
      = Inl (Exception ''boom'')"
    by (simp add: demo_dispatcher_def)
  have m: "tool_calls ?m = [?A, ?B]" "content_list ?m = []"
    by (simp_all add: two_calls_def content_list_def)
  have acc: "arguments_accepted demo_dispatcher (tool_calls ?m) []"
    using demo_accepted by (simp add: m)
  have tc: "two_calls = \<lparr>choices = ?m # []\<rparr>"
    by (simp add: two_calls_def)
  have nonempty: "error_marker ''a'' ''boom'' \<noteq> []" by (simp add: error_marker_def)
  note inst = tool_failure_never_aborts[of demo_dispatcher ?A
      "\<lparr>objects = [], final_text = [], called = []\<rparr>" "VRef 0" "[ODict []]" "VRef 1"
      "[ODict [], ODict []]" 0 "Exception ''boom''" "[?B]"
      "''a''" "VRef 0" "\<lparr>objects = [ODict []], final_text = [''hello''], called = []\<rparr>"
      "VRef 1" "[ODict [], ODict []]" 0 "Exception ''boom''" "[ToolUse ''b'' (VRef 0)]"
      "session_call demo_dispatcher" two_calls "''srv''" "Some 1" "[]"
      three_blocks "[ODict []]" ?m "[]" 1]
  from inst l demo_first_block raises
  have step1: "process_tool_calls demo_dispatcher 0 [?A, ?B]
        \<lparr>objects = [], final_text = [], called = []\<rparr>
      = process_tool_calls demo_dispatcher 1 [?B]
          \<lparr>objects = [ODict [], ODict []], final_text = [error_marker ''a'' ''boom''],
           called = [''a'']\<rparr>"
    by simp
  from inst demo_first_block raises
  have step2: "process_blocks demo_dispatcher 0 [ToolUse ''a'' (VRef 0), ToolUse ''b'' (VRef 0)]
        \<lparr>objects = [ODict []], final_text = [''hello''], called = []\<rparr>
      = process_blocks demo_dispatcher 1 [ToolUse ''b'' (VRef 0)]
          \<lparr>objects = [ODict [], ODict []], final_text = [''hello'', error_marker ''a'' ''boom''],
           called = [''a'']\<rparr>"
    by simp
  from inst acc tc
  have "process_response_openai demo_dispatcher two_calls ''srv'' (Some 1) []
      = Inr (final_answer (content_list ?m @ annotations demo_dispatcher 0 (tool_calls ?m) []))"
    by simp
  then have whole1: "process_response_openai demo_dispatcher two_calls ''srv'' (Some 1) [] =
       Inr (error_marker ''a'' ''boom'' @ [CHR 0x0A] @ ok_marker ''b'' ''done'')"
    unfolding m demo_annotations by (simp add: final_answer_def)
  from inst demo_inputs_accepted
  have "process_response_anthropic demo_dispatcher three_blocks ''srv'' (Some 1) [ODict []]
      = Inr (final_answer (block_texts demo_dispatcher 0 three_blocks [ODict []]))"
    by simp
  then have whole2: "process_response_anthropic demo_dispatcher three_blocks ''srv'' (Some 1)
       [ODict []] =
       Inr (''hello'' @ [CHR 0x0A] @ error_marker ''a'' ''boom'' @ [CHR 0x0A]
            @ ok_marker ''b'' ''done'')"
    by (simp add: demo_block_texts final_answer_def)
  from l demo_first_block raises step1 step2 acc whole1 demo_inputs_accepted whole2
  show ?thesis by simp
qed

lemma preprocess_batch_int:
  assumes "heap_get H a = Some (ODict d)" "map_of d ''depositAmounts'' = Some (VInt n)" "n \<noteq> 0"
  shows "fst (preprocess_tool_args pr ''batch-create-streams'' (VRef a) H)
     = Inl (TypeError (quoted ''int'' @ '' object is not iterable''))"
proof -
  have d: "dict_of (H @ [ODict d]) (length H) = d"
    by (simp add: dict_of_def heap_get_def)
  have "stringify_list_field pr (length H) ''depositAmounts'' (H @ [ODict d])
     = (Some (TypeError (quoted ''int'' @ '' object is not iterable'')), H @ [ODict d])"
    using assms(2,3) by (simp add: stringify_list_field_def d truthy_def py_iter_def type_name_def)
  with assms(1) show ?thesis
    by (simp add: preprocess_tool_args_def alloc_def)
qed

text \<open>
  Arguments that preprocessing rejects are another matter than a tool call that raises:
  \<open>_preprocess_tool_args\<close> runs before the \<open>try\<close> block, so an error it raises leaves
  \<open>process_response\<close>. Here "batch-create-streams" is given \<open>depositAmounts = 5\<close>, and
  preprocessing iterates over the integer.
\<close>

lemma rejected_arguments_raise:
  "session_call demo_dispatcher 0 ''get-stream-info''
       [ODict [], ODict [(''depositAmounts'', VInt 5)], ODict []] (VRef 2)
     = Inl (Exception ''boom'')
   \<and> process_response_anthropic demo_dispatcher
        [ToolUse ''get-stream-info'' (VRef 0), ToolUse ''batch-create-streams'' (VRef 1)]
        ''srv'' (Some 1) [ODict [], ODict [(''depositAmounts'', VInt 5)]]
      = Inl (TypeError (quoted ''int'' @ '' object is not iterable''))"
proof -
  let ?H0 = "[ODict [], ODict [(''depositAmounts'', VInt 5)]]"
  let ?H1 = "[ODict [], ODict [(''depositAmounts'', VInt 5)], ODict []]"
  have g: "heap_get ?H0 0 = Some (ODict [])" by (simp add: heap_get_def)
  have a: "preprocess_tool_args (printer demo_dispatcher) ''get-stream-info'' (VRef 0) ?H0
      = (Inr (VRef 2), ?H1)"
    using preprocess_plain_dict[OF g, of "''get-stream-info''" "printer demo_dispatcher"]
    by simp
  have g1: "heap_get ?H1 1 = Some (ODict [(''depositAmounts'', VInt 5)])"
    by (simp add: heap_get_def)
  have b: "fst (preprocess_tool_args (printer demo_dispatcher) ''batch-create-streams'' (VRef 1) ?H1)
      = Inl (TypeError (quoted ''int'' @ '' object is not iterable''))"
    by (rule preprocess_batch_int[OF g1, of 5]) simp_all
  obtain r H2 where p: "preprocess_tool_args (printer demo_dispatcher) ''batch-create-streams''
      (VRef 1) ?H1 = (r, H2)"
    by (cases "preprocess_tool_args (printer demo_dispatcher) ''batch-create-streams'' (VRef 1) ?H1")
  with b have r: "r = Inl (TypeError (quoted ''int'' @ '' object is not iterable''))" by simp
  have c: "session_call demo_dispatcher 0 ''get-stream-info'' ?H1 (VRef 2) = Inl (Exception ''boom'')"
    by (simp add: demo_dispatcher_def)
  have "process_blocks demo_dispatcher 0
        [ToolUse ''get-stream-info'' (VRef 0), ToolUse ''batch-create-streams'' (VRef 1)]
        \<lparr>objects = ?H0, final_text = [], called = []\<rparr>
      = Inl (TypeError (quoted ''int'' @ '' object is not iterable''))"
    by (simp only: process_blocks.simps progress.simps a p r prod.case sum.case)
  then have "process_response_anthropic demo_dispatcher
        [ToolUse ''get-stream-info'' (VRef 0), ToolUse ''batch-create-streams'' (VRef 1)]
        ''srv'' (Some 1) ?H0 = Inl (TypeError (quoted ''int'' @ '' object is not iterable''))"
    by (simp add: process_response_anthropic_def)
  with c show ?thesis by simp
qed

lemma py_join_snoc2:
  "\<exists>pre. py_join sep (xs @ [a, b]) = pre @ a @ sep @ b"
proof (induction xs rule: py_join.induct[of _ sep])
  case (1 sep)
  show ?case by simp
next
  case (2 sep x)
  show ?case by (rule exI[of _ "x @ sep"]) simp
next
  case (3 sep x y ys)
  then obtain pre where "py_join sep ((y # ys) @ [a, b]) = pre @ a @ sep @ b" by blast
  then show ?case by (intro exI[of _ "x @ sep @ pre"]) simp
qed

lemma openai_returned:
  assumes "process_response_openai D \<lparr>choices = m # others\<rparr> server_name (Some s) H = Inr text"
  shows "\<exists>st anns. dispatch_openai D \<lparr>choices = m # others\<rparr> H = Inr st
         \<and> called st = map tc_name (tool_calls m)
         \<and> list_all2 (\<lambda>tc a. annotates D (tc_name tc) a) (tool_calls m) anns
         \<and> final_text st = content_list m @ anns
         \<and> text = final_answer (content_list m @ anns)"
proof -
  from assms obtain st where d: "dispatch_openai D \<lparr>choices = m # others\<rparr> H = Inr st"
    and t: "text = final_answer (final_text st)"
    by (auto simp: process_response_openai_def split: sum.splits)
  from d have run: "process_tool_calls D 0 (tool_calls m)
      \<lparr>objects = H, final_text = content_list m, called = []\<rparr> = Inr st"
    by (simp add: dispatch_openai_def)
  from process_tool_calls_result[OF run] obtain anns where
    "called st = map tc_name (tool_calls m)" "final_text st = content_list m @ anns"
    "list_all2 (\<lambda>tc a. annotates D (tc_name tc) a) (tool_calls m) anns" by auto
  with d t show ?thesis by auto
qed

lemma openai_two_invocations:
  assumes "tool_calls m = [A, B]"
    "process_response_openai D \<lparr>choices = m # others\<rparr> server_name (Some s) H = Inr text"
  shows "\<exists>pre a b. annotates D (tc_name A) a \<and> annotates D (tc_name B) b
           \<and> text = pre @ a @ [CHR 0x0A] @ b"
proof -
  from openai_returned[OF assms(2)] obtain anns where
    l: "list_all2 (\<lambda>tc a. annotates D (tc_name tc) a) (tool_calls m) anns"
    and t: "text = final_answer (content_list m @ anns)" by blast
  from l assms(1) obtain a b where ab: "anns = [a, b]" "annotates D (tc_name A) a"
    "annotates D (tc_name B) b"
    by (auto simp: list_all2_Cons1)
  from py_join_snoc2[of "[CHR 0x0A]" "content_list m" a b] obtain pre where
    "py_join [CHR 0x0A] (content_list m @ [a, b]) = pre @ a @ [CHR 0x0A] @ b" by blast
  with t ab show ?thesis by (auto simp: final_answer_def)
qed

lemma openai_no_choices:
  "process_response_openai D \<lparr>choices = []\<rparr> server_name (Some s) H = Inr msg_no_result"
  by (simp add: process_response_openai_def dispatch_openai_def final_answer_def)

lemma openai_nothing_produced:
  "content_list m = [] \<Longrightarrow> tool_calls m = [] \<Longrightarrow>
     process_response_openai D \<lparr>choices = m # others\<rparr> server_name (Some s) H = Inr msg_no_result"
  by (simp add: process_response_openai_def dispatch_openai_def final_answer_def)

text \<open>
  C8. Whenever \<open>OpenAIService.process_response\<close> returns a text, the tools were called
  one after the other in the order the model emitted the invocations, and the text is
  the content followed by one annotation for each invocation in that order, joined by
  line feeds. For two invocations A then B the text ends with the annotation of A, a
  line feed and the annotation of B. When there are no choices, or neither content nor
  invocations, the text is the fixed placeholder.
\<close>

theorem openai_dispatch_in_emission_order:
  "(process_response_openai D \<lparr>choices = m # others\<rparr> server_name (Some s) H = Inr text \<longrightarrow>
      (\<exists>st anns. dispatch_openai D \<lparr>choices = m # others\<rparr> H = Inr st
         \<and> called st = map tc_name (tool_calls m)
         \<and> list_all2 (\<lambda>tc a. annotates D (tc_name tc) a) (tool_calls m) anns
         \<and> final_text st = content_list m @ anns
         \<and> text = final_answer (content_list m @ anns)))
   \<and> (tool_calls m = [A, B]
        \<and> process_response_openai D \<lparr>choices = m # others\<rparr> server_name (Some s) H = Inr text \<longrightarrow>
        (\<exists>pre a b. annotates D (tc_name A) a \<and> annotates D (tc_name B) b
           \<and> text = pre @ a @ [CHR 0x0A] @ b))
   \<and> process_response_openai D \<lparr>choices = []\<rparr> server_name (Some s) H = Inr msg_no_result
   \<and> (content_list m = [] \<and> tool_calls m = [] \<longrightarrow>
        process_response_openai D \<lparr>choices = m # others\<rparr> server_name (Some s) H
          = Inr msg_no_result)"
proof (intro conjI impI)
  assume "process_response_openai D \<lparr>choices = m # others\<rparr> server_name (Some s) H = Inr text"
  then show "\<exists>st anns. dispatch_openai D \<lparr>choices = m # others\<rparr> H = Inr st
         \<and> called st = map tc_name (tool_calls m)
         \<and> list_all2 (\<lambda>tc a. annotates D (tc_name tc) a) (tool_calls m) anns
         \<and> final_text st = content_list m @ anns
         \<and> text = final_answer (content_list m @ anns)"
    by (rule openai_returned)
next
  assume "tool_calls m = [A, B]
        \<and> process_response_openai D \<lparr>choices = m # others\<rparr> server_name (Some s) H = Inr text"
  then show "\<exists>pre a b. annotates D (tc_name A) a \<and> annotates D (tc_name B) b
           \<and> text = pre @ a @ [CHR 0x0A] @ b"
    using openai_two_invocations[of m A B D others server_name s H "text"] by simp
next
  show "process_response_openai D \<lparr>choices = []\<rparr> server_name (Some s) H = Inr msg_no_result"
    by (rule openai_no_choices)
next
  assume "content_list m = [] \<and> tool_calls m = []"
  then show "process_response_openai D \<lparr>choices = m # others\<rparr> server_name (Some s) H
          = Inr msg_no_result"
    using openai_nothing_produced[of m D others server_name s H] by simp
qed

text \<open>
  C8 at a concrete response with the invocations "a" then "b", and at a response with
  empty content and no invocation.
\<close>

theorem openai_dispatch_in_emission_order_witness:
  "process_response_openai demo_dispatcher two_calls ''srv'' (Some 1) [] =
       Inr (error_marker ''a'' ''boom'' @ [CHR 0x0A] @ ok_marker ''b'' ''done'')
   \<and> (\<exists>st anns. dispatch_openai demo_dispatcher two_calls [] = Inr st
         \<and> called st = [''a'', ''b'']
         \<and> final_text st = anns
         \<and> error_marker ''a'' ''boom'' @ [CHR 0x0A] @ ok_marker ''b'' ''done'' = final_answer anns)
   \<and> (\<exists>pre a b. annotates demo_dispatcher ''a'' a \<and> annotates demo_dispatcher ''b'' b
         \<and> error_marker ''a'' ''boom'' @ [CHR 0x0A] @ ok_marker ''b'' ''done''
             = pre @ a @ [CHR 0x0A] @ b)
   \<and> process_response_openai demo_dispatcher \<lparr>choices = [\<lparr>content = Some [], tool_calls = []\<rparr>]\<rparr>
        ''srv'' (Some 1) [] = Inr msg_no_result"
proof -
  let ?A = "\<lparr>tc_name = ''a'', tc_arguments = ''{}''\<rparr>"
  let ?B = "\<lparr>tc_name = ''b'', tc_arguments = ''{}''\<rparr>"
  let ?m = "\<lparr>content = None, tool_calls = [?A, ?B]\<rparr>"
  let ?e = "\<lparr>content = Some [], tool_calls = []\<rparr>"
  let ?text = "error_marker ''a'' ''boom'' @ [CHR 0x0A] @ ok_marker ''b'' ''done''"
  have tc: "two_calls = \<lparr>choices = ?m # []\<rparr>" by (simp add: two_calls_def)
  have t: "process_response_openai demo_dispatcher \<lparr>choices = ?m # []\<rparr> ''srv'' (Some 1) [] =
       Inr ?text"
    using demo_text tc by simp
  have cl: "content_list ?m = []" by (simp add: content_list_def)
  have tm: "tool_calls ?m = [?A, ?B]" by simp
  have e: "content_list ?e = [] \<and> tool_calls ?e = []" by (simp add: content_list_def)
  note inst = openai_dispatch_in_emission_order[of demo_dispatcher ?m "[]" "''srv''" 1 "[]" ?text ?A ?B]
  from inst t obtain st anns where
    s: "dispatch_openai demo_dispatcher \<lparr>choices = ?m # []\<rparr> [] = Inr st"
      "called st = map tc_name (tool_calls ?m)" "final_text st = content_list ?m @ anns"
      "?text = final_answer (content_list ?m @ anns)"
    by blast
  have one: "\<exists>st anns. dispatch_openai demo_dispatcher two_calls [] = Inr st
         \<and> called st = [''a'', ''b''] \<and> final_text st = anns \<and> ?text = final_answer anns"
    using s tc cl by auto
  from inst t tm obtain pre a b where
    "annotates demo_dispatcher (tc_name ?A) a" "annotates demo_dispatcher (tc_name ?B) b"
    "?text = pre @ a @ [CHR 0x0A] @ b"
    by blast
  then have two: "\<exists>pre a b. annotates demo_dispatcher ''a'' a \<and> annotates demo_dispatcher ''b'' b
         \<and> ?text = pre @ a @ [CHR 0x0A] @ b"
    by auto
  have three: "process_response_openai demo_dispatcher \<lparr>choices = [?e]\<rparr> ''srv'' (Some 1) []
      = Inr msg_no_result"
    using openai_dispatch_in_emission_order[of demo_dispatcher ?e "[]" "''srv''" 1 "[]"] e
    by blast
  from demo_text one two three show ?thesis by blast
qed

end
